theory Spec2Isabelle
  imports Main "HOL-Library.Word"
begin

section \<open>The ESP32-CAM meter monitor: capture scheduler, reconnect loop, delivery\<close>

text \<open>
  The program is \<^verbatim>\<open>src/main.cpp\<close>: an Arduino sketch whose \<^verbatim>\<open>loop()\<close> keeps the
  MQTT connection alive and, every \<^verbatim>\<open>captureInterval\<close> milliseconds, takes a camera
  frame and publishes it. Everything the sketch calls outside itself (the MQTT client,
  the camera driver, the clock, the random generator, the serial port, the GPIO pins) is
  the environment: each call is recorded as an event of a trace, and the value a call
  returns is read from the environment, which is a parameter of the model. The k-th call
  of an external function gets the k-th answer of that function, so the environment can
  script any behaviour of the hardware and the libraries, and the program, which is
  deterministic, is a function of it.
\<close>

subsection \<open>Data\<close>

text \<open>\<^verbatim>\<open>unsigned long\<close> on the ESP32 (a 32-bit target) is 32 bits wide.\<close>

type_synonym u32 = "32 word"

text \<open>
  \<^verbatim>\<open>camera_fb_t\<close>: the sketch reads the fields \<^verbatim>\<open>buf\<close> and \<^verbatim>\<open>len\<close> only.
\<close>

record camera_fb =
  buf :: "8 word list"
  len :: nat

text \<open>The lines the sketch writes to the serial port, by the place that writes them.\<close>

datatype message =
    MsgConnecting              \<comment> \<open>line 103\<close>
  | MsgConnected               \<comment> \<open>line 107\<close>
  | MsgFailedRc                \<comment> \<open>line 109\<close>
  | MsgRc int                  \<comment> \<open>line 110: the value of \<^verbatim>\<open>mqtt.state()\<close>\<close>
  | MsgRetrying                \<comment> \<open>line 111\<close>
  | MsgCapturing               \<comment> \<open>line 118\<close>
  | MsgCaptureFailed           \<comment> \<open>line 123\<close>
  | MsgCaptured nat            \<comment> \<open>line 128: the length of the frame\<close>
  | MsgSent                    \<comment> \<open>line 139\<close>
  | MsgSendFailed              \<comment> \<open>line 141\<close>

text \<open>One event per call that leaves the sketch, with its arguments and its answer.\<close>

datatype event =
    SerialPrint message
  | DigitalWrite nat bool                       \<comment> \<open>pin, level (\<open>True\<close> is HIGH)\<close>
  | CameraFbGet "camera_fb option"              \<comment> \<open>\<open>None\<close> is the null pointer\<close>
  | CameraFbReturn camera_fb
  | MqttConnectedQ bool                         \<comment> \<open>\<^verbatim>\<open>mqtt.connected()\<close> and its answer\<close>
  | Random nat nat                              \<comment> \<open>\<^verbatim>\<open>random(howbig)\<close> and its answer\<close>
  | MqttConnect string string string bool       \<comment> \<open>client id, user, password, answer\<close>
  | MqttState int
  | MqttPublish string "8 word list" nat bool   \<comment> \<open>topic, payload, length, answer\<close>
  | MqttLoop
  | Millis u32
  | Delay nat

text \<open>
  The environment: the answers of the external calls, by call number, and the two
  credentials of \<^verbatim>\<open>credentials.h\<close>, a file that is not part of the sources.
\<close>

record env =
  connected_answer :: "nat \<Rightarrow> bool"
  connect_answer :: "nat \<Rightarrow> bool"
  state_answer :: "nat \<Rightarrow> int"
  random_answer :: "nat \<Rightarrow> nat"
  fb_get_answer :: "nat \<Rightarrow> camera_fb option"
  publish_answer :: "nat \<Rightarrow> bool"
  millis_answer :: "nat \<Rightarrow> u32"
  mqtt_user :: string
  mqtt_password :: string

text \<open>
  The state: the global \<^verbatim>\<open>lastCapture\<close>, the output level of the pins, the trace so
  far, and how many answers of each external function have been used.
\<close>

record state =
  lastCapture :: u32
  gpio :: "nat \<Rightarrow> bool"
  trace :: "event list"
  n_connected :: nat
  n_connect :: nat
  n_state :: nat
  n_random :: nat
  n_fb_get :: nat
  n_publish :: nat
  n_millis :: nat

text \<open>
  A call of the sketch either returns, or is still inside the retry loop of
  \<^verbatim>\<open>reconnectMQTT\<close> when the bound on the loop's iterations is used up; the state
  reached so far is kept in both cases.
\<close>

datatype outcome = Returned state | Blocked state

fun final :: "outcome \<Rightarrow> state" where
  "final (Returned s) = s"
| "final (Blocked s) = s"

fun returned :: "outcome \<Rightarrow> bool" where
  "returned (Returned s) = True"
| "returned (Blocked s) = False"

definition and_then :: "outcome \<Rightarrow> (state \<Rightarrow> outcome) \<Rightarrow> outcome" where
  "and_then r f = (case r of Returned s \<Rightarrow> f s | Blocked s \<Rightarrow> Blocked s)"

subsection \<open>Constants of the sketch\<close>

definition mqtt_topic :: string where
  "mqtt_topic = ''home/meter/electric/image''"

definition captureInterval :: u32 where
  "captureInterval = 300000"

definition LED_BUILTIN :: nat where
  "LED_BUILTIN = 33"

text \<open>
  The state when \<^verbatim>\<open>loop()\<close> is entered for the first time: \<^verbatim>\<open>lastCapture\<close> has its
  initialiser 0, \<^verbatim>\<open>setup()\<close> has driven the LED low, and the trace and the call numbers
  count from here.
\<close>

definition boot_state :: state where
  "boot_state = \<lparr> lastCapture = 0, gpio = (\<lambda>_. False), trace = [],
     n_connected = 0, n_connect = 0, n_state = 0, n_random = 0, n_fb_get = 0,
     n_publish = 0, n_millis = 0 \<rparr>"

subsection \<open>The external calls\<close>

definition emit :: "event \<Rightarrow> state \<Rightarrow> state" where
  "emit e s = s\<lparr> trace := trace s @ [e] \<rparr>"

definition serial_print :: "message \<Rightarrow> state \<Rightarrow> state" where
  "serial_print m s = emit (SerialPrint m) s"

definition digitalWrite :: "nat \<Rightarrow> bool \<Rightarrow> state \<Rightarrow> state" where
  "digitalWrite pin v s = emit (DigitalWrite pin v) (s\<lparr> gpio := (gpio s)(pin := v) \<rparr>)"

definition delay :: "nat \<Rightarrow> state \<Rightarrow> state" where
  "delay ms s = emit (Delay ms) s"

definition mqtt_connected :: "env \<Rightarrow> state \<Rightarrow> bool \<times> state" where
  "mqtt_connected env s =
     (let r = connected_answer env (n_connected s)
      in (r, emit (MqttConnectedQ r) (s\<lparr> n_connected := Suc (n_connected s) \<rparr>)))"

definition arduino_random :: "env \<Rightarrow> nat \<Rightarrow> state \<Rightarrow> nat \<times> state" where
  "arduino_random env howbig s =
     (let r = random_answer env (n_random s)
      in (r, emit (Random howbig r) (s\<lparr> n_random := Suc (n_random s) \<rparr>)))"

definition mqtt_connect :: "env \<Rightarrow> string \<Rightarrow> string \<Rightarrow> string \<Rightarrow> state \<Rightarrow> bool \<times> state" where
  "mqtt_connect env cid usr pwd s =
     (let r = connect_answer env (n_connect s)
      in (r, emit (MqttConnect cid usr pwd r) (s\<lparr> n_connect := Suc (n_connect s) \<rparr>)))"

definition mqtt_state :: "env \<Rightarrow> state \<Rightarrow> int \<times> state" where
  "mqtt_state env s =
     (let r = state_answer env (n_state s)
      in (r, emit (MqttState r) (s\<lparr> n_state := Suc (n_state s) \<rparr>)))"

definition mqtt_publish :: "env \<Rightarrow> string \<Rightarrow> 8 word list \<Rightarrow> nat \<Rightarrow> state \<Rightarrow> bool \<times> state" where
  "mqtt_publish env topic payload plen s =
     (let r = publish_answer env (n_publish s)
      in (r, emit (MqttPublish topic payload plen r) (s\<lparr> n_publish := Suc (n_publish s) \<rparr>)))"

definition mqtt_loop :: "state \<Rightarrow> state" where
  "mqtt_loop s = emit MqttLoop s"

definition millis :: "env \<Rightarrow> state \<Rightarrow> u32 \<times> state" where
  "millis env s =
     (let r = millis_answer env (n_millis s)
      in (r, emit (Millis r) (s\<lparr> n_millis := Suc (n_millis s) \<rparr>)))"

definition esp_camera_fb_get :: "env \<Rightarrow> state \<Rightarrow> camera_fb option \<times> state" where
  "esp_camera_fb_get env s =
     (let r = fb_get_answer env (n_fb_get s)
      in (r, emit (CameraFbGet r) (s\<lparr> n_fb_get := Suc (n_fb_get s) \<rparr>)))"

definition esp_camera_fb_return :: "camera_fb \<Rightarrow> state \<Rightarrow> state" where
  "esp_camera_fb_return fb s = emit (CameraFbReturn fb) s"

subsection \<open>The client identifier\<close>

text \<open>
  \<^verbatim>\<open>String(value, HEX)\<close> of the Arduino core, on a value that is not negative
  (\<^verbatim>\<open>random(howbig)\<close> answers in the range from 0 to \<^verbatim>\<open>howbig - 1\<close>): the digits in
  base 16, lower case, without leading zeros.
\<close>

definition hex_digit :: "nat \<Rightarrow> char" where
  "hex_digit d = ''0123456789abcdef'' ! d"

fun String_HEX :: "nat \<Rightarrow> string" where
  "String_HEX n = (if n < 16 then [hex_digit n] else String_HEX (n div 16) @ [hex_digit (n mod 16)])"

declare String_HEX.simps [simp del]

definition client_id :: "nat \<Rightarrow> string" where
  "client_id r = ''ESP32CAM-Electric-'' @ String_HEX r"

subsection \<open>\<^verbatim>\<open>reconnectMQTT\<close> (lines 101 to 115)\<close>

text \<open>
  The first argument after the environment bounds the number of times the loop's
  condition is tested; the loop itself has no bound. One equation is one test of the
  condition and, when the client is not connected, one run of the body.
\<close>

fun reconnectMQTT :: "env \<Rightarrow> nat \<Rightarrow> state \<Rightarrow> outcome" where
  "reconnectMQTT env 0 s = Blocked s"
| "reconnectMQTT env (Suc n) s =
     (let (c, s1) = mqtt_connected env s in
      if \<not> c then
        let s2 = serial_print MsgConnecting s1;
            (r, s3) = arduino_random env 0xffff s2;
            clientId = client_id r;
            (ok, s4) = mqtt_connect env clientId (mqtt_user env) (mqtt_password env) s3
        in if ok then
             reconnectMQTT env n (serial_print MsgConnected s4)
           else
             let s5 = serial_print MsgFailedRc s4;
                 (rc, s6) = mqtt_state env s5;
                 s7 = serial_print (MsgRc rc) s6;
                 s8 = serial_print MsgRetrying s7;
                 s9 = delay 5000 s8
             in reconnectMQTT env n s9
      else Returned s1)"

subsection \<open>\<^verbatim>\<open>captureAndSend\<close> (lines 117 to 146)\<close>

definition captureAndSend :: "env \<Rightarrow> nat \<Rightarrow> state \<Rightarrow> outcome" where
  "captureAndSend env n s =
     (let s1 = serial_print MsgCapturing s;
          s2 = digitalWrite LED_BUILTIN True s1;
          (fb, s3) = esp_camera_fb_get env s2
      in case fb of
           None \<Rightarrow>
             let s4 = serial_print MsgCaptureFailed s3;
                 s5 = digitalWrite LED_BUILTIN False s4
             in Returned s5
         | Some f \<Rightarrow>
             let s4 = serial_print (MsgCaptured (len f)) s3;
                 (c, s5) = mqtt_connected env s4
             in and_then (if \<not> c then reconnectMQTT env n s5 else Returned s5)
                  (\<lambda>s6.
                     let (success, s7) = mqtt_publish env mqtt_topic (buf f) (len f) s6;
                         s8 = (if success then serial_print MsgSent s7
                               else serial_print MsgSendFailed s7);
                         s9 = esp_camera_fb_return f s8;
                         s10 = digitalWrite LED_BUILTIN False s9
                     in Returned s10))"

subsection \<open>\<^verbatim>\<open>loop\<close> (lines 148 to 162)\<close>

definition loop :: "env \<Rightarrow> nat \<Rightarrow> state \<Rightarrow> outcome" where
  "loop env n s =
     (let (c, s1) = mqtt_connected env s
      in and_then (if \<not> c then reconnectMQTT env n s1 else Returned s1)
           (\<lambda>s2.
              let s3 = mqtt_loop s2;
                  (currentMillis, s4) = millis env s3
              in and_then
                   (if currentMillis - lastCapture s4 \<ge> captureInterval then
                      captureAndSend env n (s4\<lparr> lastCapture := currentMillis \<rparr>)
                    else Returned s4)
                   (\<lambda>s5. Returned (delay 100 s5))))"

text \<open>The Arduino runtime calls \<^verbatim>\<open>loop()\<close> again and again; \<open>loops k\<close> is k calls.\<close>

fun loops :: "env \<Rightarrow> nat \<Rightarrow> nat \<Rightarrow> state \<Rightarrow> outcome" where
  "loops env n 0 s = Returned s"
| "loops env n (Suc k) s = and_then (loops env n k s) (loop env n)"


section \<open>Vocabulary of the properties\<close>

subsection \<open>Traces\<close>

text \<open>The events emitted between an earlier state and a later one.\<close>

definition new_events :: "state \<Rightarrow> state \<Rightarrow> event list" where
  "new_events s s' = drop (length (trace s)) (trace s')"

text \<open>
  \<open>chained R prev es\<close>: every event of \<open>es\<close> stands in relation \<open>R\<close> to the event
  just before it (\<open>prev\<close> before the first one, \<open>None\<close> when there is none).
\<close>

fun chained :: "(event option \<Rightarrow> event \<Rightarrow> bool) \<Rightarrow> event option \<Rightarrow> event list \<Rightarrow> bool" where
  "chained R prev [] = True"
| "chained R prev (e # es) = (R prev e \<and> chained R (Some e) es)"

text \<open>A publish comes right after a \<^verbatim>\<open>connected()\<close> query that answered true.\<close>

definition publish_after_connected :: "event option \<Rightarrow> event \<Rightarrow> bool" where
  "publish_after_connected prev e =
     (case e of MqttPublish t p l ok \<Rightarrow> prev = Some (MqttConnectedQ True) | _ \<Rightarrow> True)"

text \<open>
  A connect attempt comes right after a draw of \<^verbatim>\<open>random(0xffff)\<close>, and its client
  identifier is built from the number drawn.
\<close>

definition connect_after_draw :: "event option \<Rightarrow> event \<Rightarrow> bool" where
  "connect_after_draw prev e =
     (case e of
        MqttConnect cid u p ok \<Rightarrow>
          (case prev of Some (Random h r) \<Rightarrow> h = 0xffff \<and> cid = client_id r | _ \<Rightarrow> False)
      | _ \<Rightarrow> True)"

text \<open>The client identifiers of the connect attempts of a trace, in order.\<close>

fun connect_ids :: "event list \<Rightarrow> string list" where
  "connect_ids [] = []"
| "connect_ids (e # es) =
     (case e of MqttConnect cid u p ok \<Rightarrow> cid # connect_ids es | _ \<Rightarrow> connect_ids es)"

text \<open>
  \<open>retry_delayed pending es\<close>: no connect attempt of \<open>es\<close> is made while a failed
  attempt is pending, that is, not yet followed by \<^verbatim>\<open>delay(5000)\<close>; and none is
  pending where \<open>es\<close> ends. \<open>pending\<close> says whether one is pending where \<open>es\<close> starts.
\<close>

fun retry_delayed :: "bool \<Rightarrow> event list \<Rightarrow> bool" where
  "retry_delayed pending [] = (\<not> pending)"
| "retry_delayed pending (e # es) =
     (case e of
        MqttConnect cid u p ok \<Rightarrow> \<not> pending \<and> retry_delayed (\<not> ok) es
      | Delay d \<Rightarrow> retry_delayed (pending \<and> d \<noteq> 5000) es
      | _ \<Rightarrow> retry_delayed pending es)"

text \<open>The events that \<^verbatim>\<open>reconnectMQTT\<close> and the connection test before it emit.\<close>

definition connectivity_event :: "event \<Rightarrow> bool" where
  "connectivity_event e =
     (case e of
        MqttConnectedQ c \<Rightarrow> True
      | SerialPrint m \<Rightarrow>
          (case m of MsgConnecting \<Rightarrow> True | MsgConnected \<Rightarrow> True | MsgFailedRc \<Rightarrow> True
           | MsgRc rc \<Rightarrow> True | MsgRetrying \<Rightarrow> True | _ \<Rightarrow> False)
      | Random h r \<Rightarrow> True
      | MqttConnect cid u p ok \<Rightarrow> True
      | MqttState rc \<Rightarrow> True
      | Delay d \<Rightarrow> d = 5000
      | _ \<Rightarrow> False)"

text \<open>
  The events of a capture-publish cycle: anything but the keepalive service, the clock
  reading and the idle delay of \<^verbatim>\<open>loop()\<close>.
\<close>

definition cycle_event :: "event \<Rightarrow> bool" where
  "cycle_event e =
     (case e of MqttLoop \<Rightarrow> False | Millis t \<Rightarrow> False | Delay d \<Rightarrow> d = 5000 | _ \<Rightarrow> True)"

definition is_release :: "event \<Rightarrow> bool" where
  "is_release e = (case e of CameraFbReturn f \<Rightarrow> True | _ \<Rightarrow> False)"

definition is_acquire :: "event \<Rightarrow> bool" where
  "is_acquire e = (case e of CameraFbGet f \<Rightarrow> True | _ \<Rightarrow> False)"

definition is_publish :: "event \<Rightarrow> bool" where
  "is_publish e = (case e of MqttPublish t p l ok \<Rightarrow> True | _ \<Rightarrow> False)"

text \<open>A capture-publish cycle starts with line 118, which nothing else prints.\<close>

definition cycle_start :: event where
  "cycle_start = SerialPrint MsgCapturing"

subsection \<open>The steps of the sketch, as states and event lists\<close>

text \<open>
  The definitions of this subsection name the states that the functions above pass
  through, so that the lemmas below can speak about them; each is tied to the function
  it comes from by a lemma (\<open>reconnect_Suc\<close>, \<open>captureAndSend_Some\<close>, \<open>loop_eq\<close>).
\<close>

text \<open>After one test of \<^verbatim>\<open>mqtt.connected()\<close> with answer \<open>c\<close>.\<close>

definition after_query :: "bool \<Rightarrow> state \<Rightarrow> state" where
  "after_query c s =
     s\<lparr> n_connected := Suc (n_connected s), trace := trace s @ [MqttConnectedQ c] \<rparr>"

text \<open>One iteration of the retry loop whose connect attempt fails (lines 102 to 112).\<close>

definition failed_attempt :: "env \<Rightarrow> state \<Rightarrow> event list" where
  "failed_attempt env s =
     [MqttConnectedQ False, SerialPrint MsgConnecting,
      Random 0xffff (random_answer env (n_random s)),
      MqttConnect (client_id (random_answer env (n_random s)))
        (mqtt_user env) (mqtt_password env) False,
      SerialPrint MsgFailedRc, MqttState (state_answer env (n_state s)),
      SerialPrint (MsgRc (state_answer env (n_state s))), SerialPrint MsgRetrying,
      Delay 5000]"

definition after_failed :: "env \<Rightarrow> state \<Rightarrow> state" where
  "after_failed env s =
     s\<lparr> n_connected := Suc (n_connected s), n_random := Suc (n_random s),
        n_connect := Suc (n_connect s), n_state := Suc (n_state s),
        trace := trace s @ failed_attempt env s \<rparr>"

text \<open>One iteration whose connect attempt succeeds (lines 102 to 107).\<close>

definition accepted_attempt :: "env \<Rightarrow> state \<Rightarrow> event list" where
  "accepted_attempt env s =
     [MqttConnectedQ False, SerialPrint MsgConnecting,
      Random 0xffff (random_answer env (n_random s)),
      MqttConnect (client_id (random_answer env (n_random s)))
        (mqtt_user env) (mqtt_password env) True,
      SerialPrint MsgConnected]"

definition after_accepted :: "env \<Rightarrow> state \<Rightarrow> state" where
  "after_accepted env s =
     s\<lparr> n_connected := Suc (n_connected s), n_random := Suc (n_random s),
        n_connect := Suc (n_connect s), trace := trace s @ accepted_attempt env s \<rparr>"

text \<open>The events of a call of \<^verbatim>\<open>reconnectMQTT\<close>.\<close>

definition reconnect_events :: "env \<Rightarrow> nat \<Rightarrow> state \<Rightarrow> event list" where
  "reconnect_events env n s = new_events s (final (reconnectMQTT env n s))"

text \<open>
  The idiom \<^verbatim>\<open>if (!mqtt.connected()) reconnectMQTT();\<close> of lines 131 to 133 and 149 to
  151: one test, and the retry loop when it answers false.
\<close>

definition ensure :: "env \<Rightarrow> nat \<Rightarrow> state \<Rightarrow> outcome" where
  "ensure env n s =
     (if connected_answer env (n_connected s) then Returned (after_query True s)
      else reconnectMQTT env n (after_query False s))"

definition ensure_events :: "env \<Rightarrow> nat \<Rightarrow> state \<Rightarrow> event list" where
  "ensure_events env n s = new_events s (final (ensure env n s))"

text \<open>
  The start of a capture-publish cycle whose capture yields the frame \<open>f\<close> (lines 118 to
  128).
\<close>

definition acquired_events :: "camera_fb \<Rightarrow> event list" where
  "acquired_events f =
     [SerialPrint MsgCapturing, DigitalWrite LED_BUILTIN True, CameraFbGet (Some f),
      SerialPrint (MsgCaptured (len f))]"

definition acquired :: "camera_fb \<Rightarrow> state \<Rightarrow> state" where
  "acquired f s =
     s\<lparr> gpio := (gpio s)(LED_BUILTIN := True), n_fb_get := Suc (n_fb_get s),
        trace := trace s @ acquired_events f \<rparr>"

text \<open>The end of that cycle (lines 136 to 145): publish, report, release, LED off.\<close>

definition delivered_events :: "env \<Rightarrow> camera_fb \<Rightarrow> state \<Rightarrow> event list" where
  "delivered_events env f s =
     [MqttPublish mqtt_topic (buf f) (len f) (publish_answer env (n_publish s)),
      SerialPrint (if publish_answer env (n_publish s) then MsgSent else MsgSendFailed),
      CameraFbReturn f, DigitalWrite LED_BUILTIN False]"

definition delivered :: "env \<Rightarrow> camera_fb \<Rightarrow> state \<Rightarrow> state" where
  "delivered env f s =
     s\<lparr> n_publish := Suc (n_publish s), gpio := (gpio s)(LED_BUILTIN := False),
        trace := trace s @ delivered_events env f s \<rparr>"

text \<open>A cycle whose capture yields no frame (lines 118 to 125).\<close>

definition capture_failed_events :: "event list" where
  "capture_failed_events =
     [SerialPrint MsgCapturing, DigitalWrite LED_BUILTIN True, CameraFbGet None,
      SerialPrint MsgCaptureFailed, DigitalWrite LED_BUILTIN False]"

definition capture_failed :: "state \<Rightarrow> state" where
  "capture_failed s =
     s\<lparr> gpio := (gpio s)(LED_BUILTIN := False), n_fb_get := Suc (n_fb_get s),
        trace := trace s @ capture_failed_events \<rparr>"

text \<open>The keepalive service and the clock reading of \<^verbatim>\<open>loop()\<close> (lines 152 and 155).\<close>

definition serviced :: "env \<Rightarrow> state \<Rightarrow> state" where
  "serviced env s =
     s\<lparr> n_millis := Suc (n_millis s),
        trace := trace s @ [MqttLoop, Millis (millis_answer env (n_millis s))] \<rparr>"

text \<open>The events of a call of \<^verbatim>\<open>captureAndSend\<close> and of a call of \<^verbatim>\<open>loop\<close>.\<close>

definition capture_events :: "env \<Rightarrow> nat \<Rightarrow> state \<Rightarrow> event list" where
  "capture_events env n s = new_events s (final (captureAndSend env n s))"

definition loop_events :: "env \<Rightarrow> nat \<Rightarrow> state \<Rightarrow> event list" where
  "loop_events env n s = new_events s (final (loop env n s))"

subsection \<open>Scripted environments\<close>

text \<open>A three-byte frame, and an environment given by five of its answer scripts.\<close>

definition frame0 :: camera_fb where
  "frame0 = \<lparr> buf = [0xFF, 0xD8, 0xFF], len = 3 \<rparr>"

definition scripted ::
  "(nat \<Rightarrow> bool) \<Rightarrow> (nat \<Rightarrow> bool) \<Rightarrow> (nat \<Rightarrow> camera_fb option) \<Rightarrow> (nat \<Rightarrow> bool) \<Rightarrow> (nat \<Rightarrow> u32)
     \<Rightarrow> env" where
  "scripted conn acc fb pub clock =
     \<lparr> connected_answer = conn, connect_answer = acc, state_answer = (\<lambda>k. - 2),
       random_answer = (\<lambda>k. 4660 + k), fb_get_answer = fb, publish_answer = pub,
       millis_answer = clock, mqtt_user = ''meter'', mqtt_password = ''secret'' \<rparr>"

text \<open>
  The broker is down at first: \<^verbatim>\<open>connected()\<close> answers false three times, and the first
  two connect attempts fail.
\<close>

definition flaky_env :: env where
  "flaky_env = scripted (\<lambda>k. 3 \<le> k) (\<lambda>k. 2 \<le> k) (\<lambda>k. Some frame0) (\<lambda>k. False) (\<lambda>k. 0)"

text \<open>
  The spec's outage: \<^verbatim>\<open>connected()\<close> answers false, two connect attempts fail, the third
  succeeds; the camera works, the broker refuses the publish.
\<close>

definition outage_env :: env where
  "outage_env = scripted (\<lambda>k. 4 \<le> k) (\<lambda>k. 2 \<le> k) (\<lambda>k. Some frame0) (\<lambda>k. False) (\<lambda>k. 0)"

text \<open>Everything works: connected, frames delivered, publishes accepted.\<close>

definition steady_env :: env where
  "steady_env = scripted (\<lambda>k. True) (\<lambda>k. True) (\<lambda>k. Some frame0) (\<lambda>k. True) (\<lambda>k. 0)"

text \<open>The camera yields no frame.\<close>

definition blind_env :: env where
  "blind_env = scripted (\<lambda>k. True) (\<lambda>k. True) (\<lambda>k. None) (\<lambda>k. True) (\<lambda>k. 0)"

text \<open>
  The state in which \<^verbatim>\<open>loop()\<close> calls \<^verbatim>\<open>captureAndSend\<close>, from the state \<open>s2\<close> in which
  the connection test has returned: the keepalive is serviced, the clock is read, and
  line 157 has stored the reading in \<^verbatim>\<open>lastCapture\<close>.
\<close>

definition stamped :: "env \<Rightarrow> state \<Rightarrow> state" where
  "stamped env s2 = (serviced env s2)\<lparr> lastCapture := millis_answer env (n_millis s2) \<rparr>"

text \<open>The events of \<open>k\<close> calls of \<^verbatim>\<open>loop()\<close> in a row.\<close>

definition loops_events :: "env \<Rightarrow> nat \<Rightarrow> nat \<Rightarrow> state \<Rightarrow> event list" where
  "loops_events env n k s = new_events s (final (loops env n k s))"

text \<open>
  The connection is up when \<^verbatim>\<open>loop()\<close> starts and is lost for good afterwards; the clock
  reads 300000.
\<close>

definition stuck_env :: env where
  "stuck_env =
     scripted (\<lambda>k. k = 0) (\<lambda>k. False) (\<lambda>k. Some frame0) (\<lambda>k. True) (\<lambda>k. 300000)"

text \<open>Everything works, and a capture is due: the clock reads 300000.\<close>

definition due_env :: env where
  "due_env = scripted (\<lambda>k. True) (\<lambda>k. True) (\<lambda>k. Some frame0) (\<lambda>k. True) (\<lambda>k. 300000)"

text \<open>
  The spec's schedule: everything works, and the clock reads 0, 299999 and 300000 in the
  first three calls of \<^verbatim>\<open>loop()\<close>.
\<close>

definition schedule_env :: env where
  "schedule_env =
     scripted (\<lambda>k. True) (\<lambda>k. True) (\<lambda>k. Some frame0) (\<lambda>k. True)
       (\<lambda>k. if k = 0 then 0 else if k = 1 then 299999 else 300000)"

text \<open>
  The millisecond counter wraps around between two calls of \<^verbatim>\<open>loop()\<close>: it reads
  4294900000 and then, 300000 ms later, 232704. The camera yields no frame.
\<close>

definition wrap_env :: env where
  "wrap_env =
     scripted (\<lambda>k. True) (\<lambda>k. True) (\<lambda>k. None) (\<lambda>k. True)
       (\<lambda>k. if k = 0 then 4294900000 else 232704)"

section \<open>Lemmas\<close>

subsection \<open>Traces\<close>

lemma new_events_append: "trace s' = trace s @ evs \<Longrightarrow> new_events s s' = evs"
  by (simp add: new_events_def)

lemma new_events_step:
  assumes "trace s1 = trace s @ a" and "\<exists>b. trace s2 = trace s1 @ b"
  shows "new_events s s2 = a @ new_events s1 s2"
  using assms by (auto simp: new_events_def)

lemma chained_append:
  "chained R prev (xs @ ys) =
     (chained R prev xs \<and> chained R (if xs = [] then prev else Some (last xs)) ys)"
  by (induction xs arbitrary: prev) auto

subsection \<open>\<^verbatim>\<open>reconnectMQTT\<close>, one iteration at a time\<close>

lemma after_query_simps [simp]:
  "trace (after_query c s) = trace s @ [MqttConnectedQ c]"
  "lastCapture (after_query c s) = lastCapture s"
  "gpio (after_query c s) = gpio s"
  "n_connected (after_query c s) = Suc (n_connected s)"
  "n_connect (after_query c s) = n_connect s"
  "n_state (after_query c s) = n_state s"
  "n_random (after_query c s) = n_random s"
  "n_fb_get (after_query c s) = n_fb_get s"
  "n_publish (after_query c s) = n_publish s"
  "n_millis (after_query c s) = n_millis s"
  by (simp_all add: after_query_def)

lemma after_failed_simps [simp]:
  "trace (after_failed env s) = trace s @ failed_attempt env s"
  "lastCapture (after_failed env s) = lastCapture s"
  "gpio (after_failed env s) = gpio s"
  "n_connected (after_failed env s) = Suc (n_connected s)"
  "n_connect (after_failed env s) = Suc (n_connect s)"
  "n_state (after_failed env s) = Suc (n_state s)"
  "n_random (after_failed env s) = Suc (n_random s)"
  "n_fb_get (after_failed env s) = n_fb_get s"
  "n_publish (after_failed env s) = n_publish s"
  "n_millis (after_failed env s) = n_millis s"
  by (simp_all add: after_failed_def)

lemma after_accepted_simps [simp]:
  "trace (after_accepted env s) = trace s @ accepted_attempt env s"
  "lastCapture (after_accepted env s) = lastCapture s"
  "gpio (after_accepted env s) = gpio s"
  "n_connected (after_accepted env s) = Suc (n_connected s)"
  "n_connect (after_accepted env s) = Suc (n_connect s)"
  "n_state (after_accepted env s) = n_state s"
  "n_random (after_accepted env s) = Suc (n_random s)"
  "n_fb_get (after_accepted env s) = n_fb_get s"
  "n_publish (after_accepted env s) = n_publish s"
  "n_millis (after_accepted env s) = n_millis s"
  by (simp_all add: after_accepted_def)

lemmas call_defs = mqtt_connected_def arduino_random_def mqtt_connect_def mqtt_state_def
  mqtt_publish_def mqtt_loop_def millis_def esp_camera_fb_get_def esp_camera_fb_return_def
  serial_print_def digitalWrite_def delay_def emit_def

lemma reconnect_Suc:
  "reconnectMQTT env (Suc n) s =
     (if connected_answer env (n_connected s) then Returned (after_query True s)
      else if connect_answer env (n_connect s) then reconnectMQTT env n (after_accepted env s)
      else reconnectMQTT env n (after_failed env s))"
  by (simp add: call_defs Let_def after_query_def after_accepted_def after_failed_def
        failed_attempt_def accepted_attempt_def)

declare reconnectMQTT.simps(2) [simp del]

lemma reconnect_frame:
  "lastCapture (final (reconnectMQTT env n s)) = lastCapture s \<and>
   gpio (final (reconnectMQTT env n s)) = gpio s \<and>
   n_fb_get (final (reconnectMQTT env n s)) = n_fb_get s \<and>
   n_publish (final (reconnectMQTT env n s)) = n_publish s \<and>
   n_millis (final (reconnectMQTT env n s)) = n_millis s"
proof (induction n arbitrary: s)
  case 0
  show ?case by simp
next
  case (Suc n)
  show ?case by (simp add: reconnect_Suc Suc)
qed

lemma reconnect_trace_extends:
  "\<exists>evs. trace (final (reconnectMQTT env n s)) = trace s @ evs"
proof (induction n arbitrary: s)
  case 0
  show ?case by simp
next
  case (Suc n)
  from Suc [of "after_accepted env s"] Suc [of "after_failed env s"]
  show ?case by (auto simp: reconnect_Suc)
qed

lemma reconnect_events_0 [simp]: "reconnect_events env 0 s = []"
  by (simp add: reconnect_events_def new_events_def)

lemma reconnect_events_Suc:
  "reconnect_events env (Suc n) s =
     (if connected_answer env (n_connected s) then [MqttConnectedQ True]
      else if connect_answer env (n_connect s)
        then accepted_attempt env s @ reconnect_events env n (after_accepted env s)
      else failed_attempt env s @ reconnect_events env n (after_failed env s))"
proof -
  have a: "new_events s (final (reconnectMQTT env n (after_accepted env s))) =
      accepted_attempt env s @
      new_events (after_accepted env s) (final (reconnectMQTT env n (after_accepted env s)))"
    by (rule new_events_step [OF _ reconnect_trace_extends]) simp
  have f: "new_events s (final (reconnectMQTT env n (after_failed env s))) =
      failed_attempt env s @
      new_events (after_failed env s) (final (reconnectMQTT env n (after_failed env s)))"
    by (rule new_events_step [OF _ reconnect_trace_extends]) simp
  show ?thesis
    unfolding reconnect_events_def
    by (simp add: reconnect_Suc new_events_append a f)
qed

lemma reconnect_trace:
  "trace (final (reconnectMQTT env n s)) = trace s @ reconnect_events env n s"
  using reconnect_trace_extends [of env n s]
  by (auto simp: reconnect_events_def new_events_def)

lemma reconnect_connectivity: "list_all connectivity_event (reconnect_events env n s)"
  by (induction n arbitrary: s)
     (simp_all add: reconnect_events_Suc failed_attempt_def accepted_attempt_def
        connectivity_event_def)

lemma reconnect_retry_delayed: "retry_delayed False (reconnect_events env n s)"
  by (induction n arbitrary: s)
     (simp_all add: reconnect_events_Suc failed_attempt_def accepted_attempt_def)

lemma reconnect_drawn: "chained connect_after_draw prev (reconnect_events env n s)"
  by (induction n arbitrary: s prev)
     (simp_all add: reconnect_events_Suc failed_attempt_def accepted_attempt_def
        connect_after_draw_def)

lemma reconnect_last:
  "returned (reconnectMQTT env n s) \<Longrightarrow>
     reconnect_events env n s \<noteq> [] \<and> last (reconnect_events env n s) = MqttConnectedQ True"
  by (induction n arbitrary: s)
     (auto simp: reconnect_events_Suc reconnect_Suc failed_attempt_def accepted_attempt_def
        split: if_splits)

lemma reconnect_counters:
  "n_random s \<le> n_random (final (reconnectMQTT env n s)) \<and>
   n_connected s \<le> n_connected (final (reconnectMQTT env n s)) \<and>
   n_connect (final (reconnectMQTT env n s)) + n_random s =
     n_random (final (reconnectMQTT env n s)) + n_connect s"
proof (induction n arbitrary: s)
  case 0
  show ?case by simp
next
  case (Suc n)
  from Suc [of "after_accepted env s"] Suc [of "after_failed env s"]
  show ?case by (auto simp: reconnect_Suc)
qed

lemma reconnect_connect_ids:
  "connect_ids (reconnect_events env n s) =
     map (\<lambda>k. client_id (random_answer env k))
       [n_random s ..< n_random (final (reconnectMQTT env n s))]"
proof (induction n arbitrary: s)
  case 0
  show ?case by simp
next
  case (Suc n)
  have a: "Suc (n_random s) \<le> n_random (final (reconnectMQTT env n (after_accepted env s)))"
    using reconnect_counters [of "after_accepted env s" env n] by simp
  have f: "Suc (n_random s) \<le> n_random (final (reconnectMQTT env n (after_failed env s)))"
    using reconnect_counters [of "after_failed env s" env n] by simp
  show ?case
    using a f
    by (simp add: reconnect_events_Suc reconnect_Suc failed_attempt_def accepted_attempt_def
          Suc upt_conv_Cons)
qed

lemma reconnect_returned_answer:
  "reconnectMQTT env n s = Returned s' \<Longrightarrow>
     n_connected s < n_connected s' \<and> connected_answer env (n_connected s' - 1)"
proof (induction n arbitrary: s)
  case 0
  then show ?case by simp
next
  case (Suc n)
  from Suc.prems Suc.IH [of "after_accepted env s"] Suc.IH [of "after_failed env s"]
  show ?case by (auto simp: reconnect_Suc split: if_splits)
qed

lemma reconnect_fuel_mono:
  "reconnectMQTT env n s = Returned s' \<Longrightarrow> reconnectMQTT env (n + k) s = Returned s'"
proof (induction n arbitrary: s)
  case 0
  then show ?case by simp
next
  case (Suc n)
  from Suc.prems Suc.IH [of "after_accepted env s"] Suc.IH [of "after_failed env s"]
  show ?case by (auto simp: reconnect_Suc split: if_splits)
qed

subsection \<open>Outcomes\<close>

lemma and_then_final:
  "final (and_then r f) = (if returned r then final (f (final r)) else final r)"
  by (cases r) (simp_all add: and_then_def)

lemma and_then_returned:
  "returned (and_then r f) = (returned r \<and> returned (f (final r)))"
  by (cases r) (simp_all add: and_then_def)

lemma returned_final: "returned r \<Longrightarrow> r = Returned (final r)"
  by (cases r) simp_all

subsection \<open>The connection test with its retry loop\<close>

lemma ensure_frame [simp]:
  "lastCapture (final (ensure env n s)) = lastCapture s"
  "gpio (final (ensure env n s)) = gpio s"
  "n_fb_get (final (ensure env n s)) = n_fb_get s"
  "n_publish (final (ensure env n s)) = n_publish s"
  "n_millis (final (ensure env n s)) = n_millis s"
  by (simp_all add: ensure_def reconnect_frame)

lemma ensure_events_eq:
  "ensure_events env n s =
     MqttConnectedQ (connected_answer env (n_connected s)) #
     (if connected_answer env (n_connected s) then []
      else reconnect_events env n (after_query False s))"
  by (simp add: ensure_events_def ensure_def new_events_def reconnect_trace)

lemma ensure_trace [simp]:
  "trace (final (ensure env n s)) = trace s @ ensure_events env n s"
  by (simp add: ensure_events_eq) (simp add: ensure_def reconnect_trace)

lemma ensure_connectivity: "list_all connectivity_event (ensure_events env n s)"
  by (simp add: ensure_events_eq reconnect_connectivity) (simp add: connectivity_event_def)

lemma ensure_last:
  "returned (ensure env n s) \<Longrightarrow> last (ensure_events env n s) = MqttConnectedQ True"
  using reconnect_last [of env n "after_query False s"]
  by (auto simp: ensure_events_eq ensure_def)

lemma ensure_nonempty [simp]: "ensure_events env n s \<noteq> []"
  by (simp add: ensure_events_eq)

subsection \<open>\<^verbatim>\<open>captureAndSend\<close> and \<^verbatim>\<open>loop\<close>, step by step\<close>

lemma acquired_simps [simp]:
  "trace (acquired f s) = trace s @ acquired_events f"
  "lastCapture (acquired f s) = lastCapture s"
  "gpio (acquired f s) = (gpio s)(LED_BUILTIN := True)"
  "n_connected (acquired f s) = n_connected s"
  "n_connect (acquired f s) = n_connect s"
  "n_state (acquired f s) = n_state s"
  "n_random (acquired f s) = n_random s"
  "n_fb_get (acquired f s) = Suc (n_fb_get s)"
  "n_publish (acquired f s) = n_publish s"
  "n_millis (acquired f s) = n_millis s"
  by (simp_all add: acquired_def)

lemma delivered_simps [simp]:
  "trace (delivered env f s) = trace s @ delivered_events env f s"
  "lastCapture (delivered env f s) = lastCapture s"
  "gpio (delivered env f s) = (gpio s)(LED_BUILTIN := False)"
  "n_connected (delivered env f s) = n_connected s"
  "n_connect (delivered env f s) = n_connect s"
  "n_state (delivered env f s) = n_state s"
  "n_random (delivered env f s) = n_random s"
  "n_fb_get (delivered env f s) = n_fb_get s"
  "n_publish (delivered env f s) = Suc (n_publish s)"
  "n_millis (delivered env f s) = n_millis s"
  by (simp_all add: delivered_def)

lemma capture_failed_simps [simp]:
  "trace (capture_failed s) = trace s @ capture_failed_events"
  "lastCapture (capture_failed s) = lastCapture s"
  "gpio (capture_failed s) = (gpio s)(LED_BUILTIN := False)"
  "n_connected (capture_failed s) = n_connected s"
  "n_connect (capture_failed s) = n_connect s"
  "n_state (capture_failed s) = n_state s"
  "n_random (capture_failed s) = n_random s"
  "n_fb_get (capture_failed s) = Suc (n_fb_get s)"
  "n_publish (capture_failed s) = n_publish s"
  "n_millis (capture_failed s) = n_millis s"
  by (simp_all add: capture_failed_def)

lemma serviced_simps [simp]:
  "trace (serviced env s) = trace s @ [MqttLoop, Millis (millis_answer env (n_millis s))]"
  "lastCapture (serviced env s) = lastCapture s"
  "gpio (serviced env s) = gpio s"
  "n_connected (serviced env s) = n_connected s"
  "n_connect (serviced env s) = n_connect s"
  "n_state (serviced env s) = n_state s"
  "n_random (serviced env s) = n_random s"
  "n_fb_get (serviced env s) = n_fb_get s"
  "n_publish (serviced env s) = n_publish s"
  "n_millis (serviced env s) = Suc (n_millis s)"
  by (simp_all add: serviced_def)

lemma captureAndSend_None:
  "fb_get_answer env (n_fb_get s) = None \<Longrightarrow> captureAndSend env n s = Returned (capture_failed s)"
  by (simp add: captureAndSend_def call_defs Let_def capture_failed_def capture_failed_events_def)

lemma delivered_eq:
  "(let (success, s7) = mqtt_publish env mqtt_topic (buf f) (len f) s6;
        s8 = (if success then serial_print MsgSent s7 else serial_print MsgSendFailed s7);
        s9 = esp_camera_fb_return f s8;
        s10 = digitalWrite LED_BUILTIN False s9
    in Returned s10) = Returned (delivered env f s6)"
  by (cases "publish_answer env (n_publish s6)")
     (simp_all add: call_defs Let_def delivered_def delivered_events_def)

lemma captureAndSend_Some:
  "fb_get_answer env (n_fb_get s) = Some f \<Longrightarrow>
     captureAndSend env n s =
       and_then (ensure env n (acquired f s)) (\<lambda>s6. Returned (delivered env f s6))"
  unfolding captureAndSend_def delivered_eq
  by (simp add: call_defs Let_def acquired_def acquired_events_def ensure_def after_query_def)

lemma loop_eq:
  "loop env n s =
     and_then (ensure env n s)
       (\<lambda>s2. and_then
          (if captureInterval \<le> millis_answer env (n_millis s2) - lastCapture s2
           then captureAndSend env n ((serviced env s2)\<lparr> lastCapture := millis_answer env (n_millis s2) \<rparr>)
           else Returned (serviced env s2))
          (\<lambda>s5. Returned (delay 100 s5)))"
  by (simp add: loop_def call_defs Let_def after_query_def serviced_def ensure_def cong: if_cong)

lemma capture_returned:
  "returned (captureAndSend env n s) =
     (case fb_get_answer env (n_fb_get s) of None \<Rightarrow> True
      | Some f \<Rightarrow> returned (ensure env n (acquired f s)))"
  by (simp add: captureAndSend_None captureAndSend_Some and_then_returned split: option.split)

lemma capture_frame [simp]:
  "lastCapture (final (captureAndSend env n s)) = lastCapture s"
  "n_millis (final (captureAndSend env n s)) = n_millis s"
  by (cases "fb_get_answer env (n_fb_get s)";
      simp add: captureAndSend_None captureAndSend_Some and_then_final)+

lemma capture_events_eq:
  "capture_events env n s =
     (case fb_get_answer env (n_fb_get s) of
        None \<Rightarrow> capture_failed_events
      | Some f \<Rightarrow>
          acquired_events f @ ensure_events env n (acquired f s) @
          (if returned (ensure env n (acquired f s)) then delivered_events env f s else []))"
  by (simp add: capture_events_def new_events_def captureAndSend_None captureAndSend_Some
        and_then_final delivered_events_def split: option.split)

lemma capture_trace [simp]:
  "trace (final (captureAndSend env n s)) = trace s @ capture_events env n s"
  by (simp add: capture_events_eq captureAndSend_None captureAndSend_Some
        and_then_final delivered_events_def split: option.split)

subsection \<open>One call of \<^verbatim>\<open>loop\<close>\<close>

lemma stamped_simps [simp]:
  "trace (stamped env s) = trace s @ [MqttLoop, Millis (millis_answer env (n_millis s))]"
  "lastCapture (stamped env s) = millis_answer env (n_millis s)"
  "gpio (stamped env s) = gpio s"
  "n_connected (stamped env s) = n_connected s"
  "n_connect (stamped env s) = n_connect s"
  "n_state (stamped env s) = n_state s"
  "n_random (stamped env s) = n_random s"
  "n_fb_get (stamped env s) = n_fb_get s"
  "n_publish (stamped env s) = n_publish s"
  "n_millis (stamped env s) = Suc (n_millis s)"
  by (simp_all add: stamped_def)

lemma delay_simps [simp]:
  "trace (delay ms s) = trace s @ [Delay ms]"
  "lastCapture (delay ms s) = lastCapture s"
  "gpio (delay ms s) = gpio s"
  "n_connected (delay ms s) = n_connected s"
  "n_connect (delay ms s) = n_connect s"
  "n_state (delay ms s) = n_state s"
  "n_random (delay ms s) = n_random s"
  "n_fb_get (delay ms s) = n_fb_get s"
  "n_publish (delay ms s) = n_publish s"
  "n_millis (delay ms s) = n_millis s"
  by (simp_all add: delay_def emit_def)

lemma loop_stamped:
  "loop env n s =
     and_then (ensure env n s)
       (\<lambda>s2. and_then
          (if captureInterval \<le> millis_answer env (n_millis s2) - lastCapture s2
           then captureAndSend env n (stamped env s2)
           else Returned (serviced env s2))
          (\<lambda>s5. Returned (delay 100 s5)))"
  unfolding stamped_def by (rule loop_eq)

lemma loop_returned:
  "returned (loop env n s) =
     (returned (ensure env n s) \<and>
      (captureInterval \<le> millis_answer env (n_millis s) - lastCapture s \<longrightarrow>
       returned (captureAndSend env n (stamped env (final (ensure env n s))))))"
  by (simp add: loop_stamped and_then_returned)

lemma loop_lastCapture:
  "lastCapture (final (loop env n s)) =
     (if returned (ensure env n s) \<and>
         captureInterval \<le> millis_answer env (n_millis s) - lastCapture s
      then millis_answer env (n_millis s) else lastCapture s)"
  by (simp add: loop_stamped and_then_final)

lemma loop_n_millis:
  "n_millis (final (loop env n s)) =
     (if returned (ensure env n s) then Suc (n_millis s) else n_millis s)"
  by (simp add: loop_stamped and_then_final)

lemma loop_events_eq:
  "loop_events env n s =
     ensure_events env n s @
     (if returned (ensure env n s) then
        [MqttLoop, Millis (millis_answer env (n_millis s))] @
        (if captureInterval \<le> millis_answer env (n_millis s) - lastCapture s
         then capture_events env n (stamped env (final (ensure env n s))) else []) @
        (if returned (loop env n s) then [Delay 100] else [])
      else [])"
  by (simp add: loop_events_def new_events_def loop_returned)
     (simp add: loop_stamped and_then_final and_then_returned)

lemma loop_trace:
  "trace (final (loop env n s)) = trace s @ loop_events env n s"
  by (simp add: loop_events_eq loop_returned)
     (simp add: loop_stamped and_then_final and_then_returned)

subsection \<open>Where a cycle starts\<close>

lemma connectivity_not_start: "connectivity_event e \<Longrightarrow> e \<noteq> cycle_start"
  by (cases e) (auto simp: connectivity_event_def cycle_start_def)

lemma ensure_no_start: "cycle_start \<notin> set (ensure_events env n s)"
  using ensure_connectivity [of env n s] connectivity_not_start
  by (auto simp: list_all_iff)

lemma ensure_count_start: "count_list (ensure_events env n s) cycle_start = 0"
  using ensure_no_start [of env n s] by (simp add: count_list_0_iff)

lemma capture_count_start: "count_list (capture_events env n s) cycle_start = 1"
  by (simp add: capture_events_eq ensure_count_start split: option.split)
     (simp add: capture_failed_events_def acquired_events_def delivered_events_def
        cycle_start_def)

lemma capture_has_start: "cycle_start \<in> set (capture_events env n s)"
proof -
  have "count_list (capture_events env n s) cycle_start \<noteq> 0"
    by (simp add: capture_count_start)
  then show ?thesis by (simp add: count_list_0_iff)
qed

lemma capture_hd: "hd (capture_events env n s) = cycle_start"
  by (simp add: capture_events_eq split: option.split)
     (simp add: capture_failed_events_def acquired_events_def cycle_start_def)

lemma capture_nonempty [simp]: "capture_events env n s \<noteq> []"
  using capture_has_start [of env n s] by auto

lemma loop_count_start:
  "count_list (loop_events env n s) cycle_start =
     (if returned (ensure env n s) \<and>
         captureInterval \<le> millis_answer env (n_millis s) - lastCapture s
      then 1 else 0)"
proof -
  have "MqttLoop \<noteq> cycle_start" "Millis t \<noteq> cycle_start" "Delay d \<noteq> cycle_start" for t d
    by (simp_all add: cycle_start_def)
  then show ?thesis
    by (simp add: loop_events_eq ensure_count_start capture_count_start)
qed

lemma loop_has_start:
  "cycle_start \<in> set (loop_events env n s) \<longleftrightarrow>
     returned (ensure env n s) \<and>
     captureInterval \<le> millis_answer env (n_millis s) - lastCapture s"
proof -
  have "cycle_start \<in> set (loop_events env n s) \<longleftrightarrow>
      count_list (loop_events env n s) cycle_start \<noteq> 0"
    by (simp add: count_list_0_iff)
  then show ?thesis by (simp add: loop_count_start)
qed

subsection \<open>The order of a call of \<^verbatim>\<open>loop\<close>\<close>

lemma connectivity_cycle: "connectivity_event e \<Longrightarrow> cycle_event e"
  by (cases e) (simp_all add: connectivity_event_def cycle_event_def)

lemma ensure_cycle: "list_all cycle_event (ensure_events env n s)"
  using ensure_connectivity [of env n s] connectivity_cycle
  by (auto simp: list_all_iff)

lemma capture_cycle: "list_all cycle_event (capture_events env n s)"
  by (simp add: capture_events_eq ensure_cycle split: option.split)
     (simp add: capture_failed_events_def acquired_events_def delivered_events_def
        cycle_event_def)

lemma ensure_hd:
  "hd (ensure_events env n s) = MqttConnectedQ (connected_answer env (n_connected s))"
  by (simp add: ensure_events_eq)

lemma ensure_connected_returns:
  "connected_answer env (n_connected s) \<Longrightarrow> returned (ensure env n s)"
  by (simp add: ensure_def)

subsection \<open>Calls of \<^verbatim>\<open>loop\<close> in a row\<close>

lemma loops_final_Suc:
  "final (loops env n (Suc k) s) =
     (if returned (loops env n k s) then final (loop env n (final (loops env n k s)))
      else final (loops env n k s))"
  by (simp add: and_then_final)

lemma loops_returned_Suc:
  "returned (loops env n (Suc k) s) =
     (returned (loops env n k s) \<and> returned (loop env n (final (loops env n k s))))"
  by (simp add: and_then_returned)

declare loops.simps(2) [simp del]

lemma loops_trace_Suc:
  "trace (final (loops env n (Suc k) s)) =
     trace (final (loops env n k s)) @
     (if returned (loops env n k s) then loop_events env n (final (loops env n k s)) else [])"
  by (simp add: loops_final_Suc loop_trace)

lemma loop_returned_ensure: "returned (loop env n s) \<Longrightarrow> returned (ensure env n s)"
  by (simp add: loop_returned)

lemma loops_n_millis:
  "returned (loops env n k s) \<Longrightarrow> n_millis (final (loops env n k s)) = n_millis s + k"
proof (induction k)
  case 0
  show ?case by simp
next
  case (Suc k)
  from Suc.prems have r: "returned (loops env n k s)"
    and l: "returned (loop env n (final (loops env n k s)))"
    by (simp_all add: loops_returned_Suc)
  from Suc.IH [OF r] r loop_returned_ensure [OF l] show ?case
    by (simp add: loops_final_Suc loop_n_millis)
qed

lemma loop_keeps_order:
  assumes "lastCapture s \<le> millis_answer env (n_millis s)"
  shows "lastCapture s \<le> lastCapture (final (loop env n s))"
  using assms by (simp add: loop_lastCapture)

lemma loops_invariant:
  assumes mono: "\<forall>i j. n_millis s \<le> i \<and> i \<le> j \<longrightarrow> millis_answer env i \<le> millis_answer env j"
    and start: "lastCapture s \<le> millis_answer env (n_millis s)"
  shows "n_millis s \<le> n_millis (final (loops env n k s)) \<and>
    lastCapture (final (loops env n k s)) \<le>
      millis_answer env (n_millis (final (loops env n k s)))"
proof (induction k)
  case 0
  from start show ?case by simp
next
  case (Suc k)
  let ?s = "final (loops env n k s)"
  from Suc have a: "n_millis s \<le> n_millis ?s"
    and b: "lastCapture ?s \<le> millis_answer env (n_millis ?s)" by simp_all
  from mono a have c: "millis_answer env (n_millis ?s) \<le> millis_answer env (Suc (n_millis ?s))"
    by simp
  from a b c have "n_millis s \<le> n_millis (final (loop env n ?s)) \<and>
      lastCapture (final (loop env n ?s)) \<le> millis_answer env (n_millis (final (loop env n ?s)))"
    by (auto simp: loop_lastCapture loop_n_millis)
  with a b show ?case
    by (simp add: loops_final_Suc)
qed

lemma loops_step_order:
  assumes mono: "\<forall>i j. n_millis s \<le> i \<and> i \<le> j \<longrightarrow> millis_answer env i \<le> millis_answer env j"
    and start: "lastCapture s \<le> millis_answer env (n_millis s)"
  shows "lastCapture (final (loops env n k s)) \<le> lastCapture (final (loops env n (Suc k) s))"
  using loops_invariant [OF mono start, of n k]
  by (simp add: loops_final_Suc loop_keeps_order)

subsection \<open>Client identifiers\<close>

lemma String_HEX_digit: "n < 16 \<Longrightarrow> String_HEX n = [hex_digit n]"
  by (simp add: String_HEX.simps)

lemma String_HEX_digits:
  "\<not> n < 16 \<Longrightarrow> String_HEX n = String_HEX (n div 16) @ [hex_digit (n mod 16)]"
  by (simp add: String_HEX.simps)

lemmas client_id_eval = client_id_def String_HEX_digit String_HEX_digits hex_digit_def

lemma hex_digit_inj: "i < 16 \<Longrightarrow> j < 16 \<Longrightarrow> hex_digit i = hex_digit j \<Longrightarrow> i = j"
proof -
  have d: "distinct ''0123456789abcdef''" by simp
  assume "i < 16" "j < 16" "hex_digit i = hex_digit j"
  then show ?thesis
    using d unfolding hex_digit_def
    by (simp add: nth_eq_iff_index_eq del: distinct.simps)
qed

lemma String_HEX_nonempty: "String_HEX n \<noteq> []" "[] \<noteq> String_HEX n"
  by (subst String_HEX.simps, simp)+

lemma String_HEX_inj: "String_HEX a = String_HEX b \<Longrightarrow> a = b"
proof (induction a arbitrary: b rule: String_HEX.induct)
  case (1 a)
  show ?case
  proof (cases "a < 16")
    case True
    note a = this
    show ?thesis
    proof (cases "b < 16")
      case True
      with a "1.prems" show ?thesis
        by (simp add: String_HEX_digit hex_digit_inj)
    next
      case False
      with a "1.prems" show ?thesis
        by (simp add: String_HEX_digit String_HEX_digits String_HEX_nonempty)
    qed
  next
    case False
    note a = this
    show ?thesis
    proof (cases "b < 16")
      case True
      with a "1.prems" show ?thesis
        by (simp add: String_HEX_digit String_HEX_digits String_HEX_nonempty)
    next
      case False
      with a "1.prems" have e: "String_HEX (a div 16) = String_HEX (b div 16)"
        and m: "hex_digit (a mod 16) = hex_digit (b mod 16)"
        by (simp_all add: String_HEX_digits)
      from "1.IH" [OF a e] have "a div 16 = b div 16" .
      moreover from m have "a mod 16 = b mod 16"
        by (intro hex_digit_inj) simp_all
      ultimately show ?thesis
        by (metis div_mult_mod_eq)
    qed
  qed
qed

lemma client_id_inj: "client_id a = client_id b \<Longrightarrow> a = b"
  by (simp add: client_id_def String_HEX_inj)

section \<open>The retry loop\<close>

lemma reconnect_never_connected:
  "(\<And>k. n_connected s \<le> k \<Longrightarrow> \<not> connected_answer env k) \<Longrightarrow> \<not> returned (reconnectMQTT env n s)"
proof (induction n arbitrary: s)
  case 0
  show ?case by simp
next
  case (Suc n)
  have a: "\<not> returned (reconnectMQTT env n (after_accepted env s))"
    by (rule Suc.IH) (simp add: Suc.prems)
  have f: "\<not> returned (reconnectMQTT env n (after_failed env s))"
    by (rule Suc.IH) (simp add: Suc.prems)
  from a f Suc.prems [of "n_connected s"] show ?case
    by (simp add: reconnect_Suc)
qed

text \<open>
  C4. \<^verbatim>\<open>reconnectMQTT\<close> returns only on a \<^verbatim>\<open>connected()\<close> query that answered true:
  when it returns, the last thing it did is that query, and the answer was true; when
  \<^verbatim>\<open>connected()\<close> never answers true, it never returns, whatever the bound. And in every
  run, finished or not, each failed connect attempt is followed by \<^verbatim>\<open>delay(5000)\<close> before
  the next attempt is made.
\<close>

theorem reconnectMQTT_returns_connected:
  "(\<forall>s'. reconnectMQTT env n s = Returned s' \<longrightarrow>
      n_connected s < n_connected s' \<and> connected_answer env (n_connected s' - 1) \<and>
      last (trace s') = MqttConnectedQ True) \<and>
   ((\<forall>k\<ge>n_connected s. \<not> connected_answer env k) \<longrightarrow> \<not> returned (reconnectMQTT env n s)) \<and>
   retry_delayed False (new_events s (final (reconnectMQTT env n s)))"
proof (intro conjI allI impI)
  fix s' assume r: "reconnectMQTT env n s = Returned s'"
  from reconnect_returned_answer [OF r]
  show "n_connected s < n_connected s'" and "connected_answer env (n_connected s' - 1)"
    by simp_all
  from r have "returned (reconnectMQTT env n s)" and "final (reconnectMQTT env n s) = s'"
    by simp_all
  with reconnect_last [of env n s] reconnect_trace [of env n s]
  show "last (trace s') = MqttConnectedQ True" by simp
next
  assume "\<forall>k\<ge>n_connected s. \<not> connected_answer env k"
  then show "\<not> returned (reconnectMQTT env n s)"
    by (intro reconnect_never_connected) simp
next
  show "retry_delayed False (new_events s (final (reconnectMQTT env n s)))"
    using reconnect_retry_delayed [of env n s] by (simp add: reconnect_events_def)
qed

lemma flaky_reconnect:
  "reconnectMQTT flaky_env 4 boot_state =
     Returned (after_query True (after_accepted flaky_env
       (after_failed flaky_env (after_failed flaky_env boot_state))))"
proof -
  have four: "(4::nat) = Suc (Suc (Suc (Suc 0)))" by simp
  show ?thesis
    unfolding four
    by (simp add: reconnect_Suc flaky_env_def scripted_def boot_state_def)
qed

theorem reconnectMQTT_returns_connected_witness:
  "returned (reconnectMQTT flaky_env 4 boot_state) \<and>
   n_connected (final (reconnectMQTT flaky_env 4 boot_state)) = 4 \<and>
   last (trace (final (reconnectMQTT flaky_env 4 boot_state))) = MqttConnectedQ True \<and>
   retry_delayed False (new_events boot_state (final (reconnectMQTT flaky_env 4 boot_state))) \<and>
   length (filter (\<lambda>e. e = Delay 5000) (trace (final (reconnectMQTT flaky_env 4 boot_state)))) = 2"
proof -
  have c: "n_connected (after_query True (after_accepted flaky_env
        (after_failed flaky_env (after_failed flaky_env boot_state)))) = 4"
    by (simp add: boot_state_def)
  have d: "length (filter (\<lambda>e. e = Delay 5000) (trace (after_query True (after_accepted flaky_env
        (after_failed flaky_env (after_failed flaky_env boot_state)))))) = 2"
    by (simp add: boot_state_def failed_attempt_def accepted_attempt_def)
  from reconnectMQTT_returns_connected [of flaky_env 4 boot_state] flaky_reconnect c d
  show ?thesis by simp
qed

text \<open>
  C9. Every connect attempt of \<^verbatim>\<open>reconnectMQTT\<close> comes right after a draw of
  \<^verbatim>\<open>random(0xffff)\<close> and carries the client identifier built from the number just drawn:
  the identifiers of the attempts are, in order, those built from consecutive answers of
  the generator, one new answer for each attempt. Different numbers give different
  identifiers, so an identifier is used again only when the generator repeats a number.
\<close>

theorem reconnectMQTT_fresh_client_id:
  "connect_ids (new_events s (final (reconnectMQTT env n s))) =
     map (\<lambda>k. client_id (random_answer env k))
       [n_random s ..< n_random (final (reconnectMQTT env n s))] \<and>
   length (connect_ids (new_events s (final (reconnectMQTT env n s)))) =
     n_connect (final (reconnectMQTT env n s)) - n_connect s \<and>
   chained connect_after_draw None (new_events s (final (reconnectMQTT env n s))) \<and>
   distinct (connect_ids (new_events s (final (reconnectMQTT env n s)))) =
     distinct (map (random_answer env) [n_random s ..< n_random (final (reconnectMQTT env n s))])"
proof -
  let ?ks = "[n_random s ..< n_random (final (reconnectMQTT env n s))]"
  have ids: "connect_ids (reconnect_events env n s) =
      map (\<lambda>k. client_id (random_answer env k)) ?ks"
    by (rule reconnect_connect_ids)
  have "length (connect_ids (reconnect_events env n s)) =
      n_random (final (reconnectMQTT env n s)) - n_random s"
    by (simp add: ids)
  also have "\<dots> = n_connect (final (reconnectMQTT env n s)) - n_connect s"
    using reconnect_counters [of s env n] by arith
  finally have len: "length (connect_ids (reconnect_events env n s)) =
      n_connect (final (reconnectMQTT env n s)) - n_connect s" .
  have "inj_on client_id A" for A
    by (rule inj_onI) (rule client_id_inj)
  then have "distinct (map client_id (map (random_answer env) ?ks)) =
      distinct (map (random_answer env) ?ks)"
    by (simp add: distinct_map del: map_map)
  then have dis: "distinct (connect_ids (reconnect_events env n s)) =
      distinct (map (random_answer env) ?ks)"
    by (simp add: ids comp_def)
  from ids len dis reconnect_drawn [of None env n s] show ?thesis
    by (simp add: reconnect_events_def)
qed

theorem reconnectMQTT_fresh_client_id_witness:
  "connect_ids (new_events boot_state (final (reconnectMQTT flaky_env 4 boot_state))) =
     [''ESP32CAM-Electric-1234'', ''ESP32CAM-Electric-1235'', ''ESP32CAM-Electric-1236''] \<and>
   chained connect_after_draw None
     (new_events boot_state (final (reconnectMQTT flaky_env 4 boot_state))) \<and>
   distinct (connect_ids (new_events boot_state (final (reconnectMQTT flaky_env 4 boot_state))))"
proof -
  have n: "n_random (final (reconnectMQTT flaky_env 4 boot_state)) = 3"
    by (simp add: flaky_reconnect) (simp add: boot_state_def)
  have z: "n_random boot_state = 0"
    by (simp add: boot_state_def)
  have u: "[0..<3] = [0, 1, 2]"
    by (simp add: upt_conv_Cons)
  have r: "random_answer flaky_env k = 4660 + k" for k
    by (simp add: flaky_env_def scripted_def)
  have a: "client_id 4660 = ''ESP32CAM-Electric-1234''" by (simp add: client_id_eval)
  have b: "client_id 4661 = ''ESP32CAM-Electric-1235''" by (simp add: client_id_eval)
  have c: "client_id 4662 = ''ESP32CAM-Electric-1236''" by (simp add: client_id_eval)
  have m: "map (\<lambda>k. client_id (random_answer flaky_env k))
      [n_random boot_state ..< n_random (final (reconnectMQTT flaky_env 4 boot_state))] =
      [''ESP32CAM-Electric-1234'', ''ESP32CAM-Electric-1235'', ''ESP32CAM-Electric-1236'']"
    unfolding n z u r by (simp add: a b c)
  have d: "distinct (map (random_answer flaky_env)
      [n_random boot_state ..< n_random (final (reconnectMQTT flaky_env 4 boot_state))])"
    unfolding n z u r by simp
  from reconnectMQTT_fresh_client_id [of boot_state flaky_env 4] d
  show ?thesis unfolding m by simp
qed

section \<open>The capture-publish cycle\<close>

text \<open>
  C7. When the camera yields no frame, \<^verbatim>\<open>captureAndSend\<close> returns (whatever the state of
  the connection) after exactly five events: the start line, LED on, the one capture
  attempt, the failure line, LED off. There is no publish, no release and no second
  capture attempt, and the LED is off at return.
\<close>

theorem captureAndSend_no_frame:
  "fb_get_answer env (n_fb_get s) = None \<Longrightarrow>
     returned (captureAndSend env n s) \<and>
     new_events s (final (captureAndSend env n s)) =
       [SerialPrint MsgCapturing, DigitalWrite LED_BUILTIN True, CameraFbGet None,
        SerialPrint MsgCaptureFailed, DigitalWrite LED_BUILTIN False] \<and>
     filter is_publish (new_events s (final (captureAndSend env n s))) = [] \<and>
     filter is_release (new_events s (final (captureAndSend env n s))) = [] \<and>
     filter is_acquire (new_events s (final (captureAndSend env n s))) = [CameraFbGet None] \<and>
     gpio (final (captureAndSend env n s)) LED_BUILTIN = False \<and>
     n_publish (final (captureAndSend env n s)) = n_publish s \<and>
     n_fb_get (final (captureAndSend env n s)) = Suc (n_fb_get s) \<and>
     n_connected (final (captureAndSend env n s)) = n_connected s"
  by (simp add: captureAndSend_None new_events_def capture_failed_events_def
        is_publish_def is_release_def is_acquire_def)

theorem captureAndSend_no_frame_witness:
  "fb_get_answer blind_env (n_fb_get boot_state) = None \<and>
   returned (captureAndSend blind_env 0 boot_state) \<and>
   trace (final (captureAndSend blind_env 0 boot_state)) =
     [SerialPrint MsgCapturing, DigitalWrite 33 True, CameraFbGet None,
      SerialPrint MsgCaptureFailed, DigitalWrite 33 False] \<and>
   gpio (final (captureAndSend blind_env 0 boot_state)) 33 = False"
proof -
  have h: "fb_get_answer blind_env (n_fb_get boot_state) = None"
    by (simp add: blind_env_def scripted_def)
  from captureAndSend_no_frame [OF h, of 0] h
  show ?thesis
    by (simp add: new_events_def boot_state_def LED_BUILTIN_def)
qed

lemma connectivity_not_release: "connectivity_event e \<Longrightarrow> \<not> is_release e"
  by (cases e) (simp_all add: connectivity_event_def is_release_def)

lemma connectivity_not_publish: "connectivity_event e \<Longrightarrow> \<not> is_publish e"
  by (cases e) (simp_all add: connectivity_event_def is_publish_def)

lemma filter_none: "list_all P es \<Longrightarrow> (\<And>e. P e \<Longrightarrow> \<not> Q e) \<Longrightarrow> filter Q es = []"
  by (induction es) auto

lemma ensure_no_release: "filter is_release (ensure_events env n s) = []"
  by (rule filter_none [OF ensure_connectivity]) (rule connectivity_not_release)

lemma ensure_no_publish: "filter is_publish (ensure_events env n s) = []"
  by (rule filter_none [OF ensure_connectivity]) (rule connectivity_not_publish)

text \<open>
  C2. When the camera yields a frame and \<^verbatim>\<open>captureAndSend\<close> returns, the cycle has
  released that frame exactly once: the cycle ends with the publish, the line that
  reports its answer, the release of the frame and LED off, and there is no other
  release, whether the publish answered true or false.
\<close>

theorem captureAndSend_releases_once:
  assumes "fb_get_answer env (n_fb_get s) = Some f"
    and "captureAndSend env n s = Returned s'"
  shows "filter is_release (new_events s s') = [CameraFbReturn f] \<and>
    (\<exists>pre. new_events s s' =
       pre @ [MqttPublish mqtt_topic (buf f) (len f) (publish_answer env (n_publish s)),
              SerialPrint (if publish_answer env (n_publish s) then MsgSent else MsgSendFailed),
              CameraFbReturn f, DigitalWrite LED_BUILTIN False])"
proof -
  from assms(2) have r: "returned (captureAndSend env n s)"
    and s': "s' = final (captureAndSend env n s)" by simp_all
  from r assms(1) have e: "returned (ensure env n (acquired f s))"
    by (simp add: capture_returned)
  have ev: "new_events s s' =
      acquired_events f @ ensure_events env n (acquired f s) @ delivered_events env f s"
    using capture_events_eq [of env n s] assms(1) e by (simp add: s' capture_events_def)
  have "filter is_release (new_events s s') = [CameraFbReturn f]"
    by (simp add: ev ensure_no_release)
       (simp add: acquired_events_def delivered_events_def is_release_def)
  moreover have "new_events s s' =
      (acquired_events f @ ensure_events env n (acquired f s)) @
      [MqttPublish mqtt_topic (buf f) (len f) (publish_answer env (n_publish s)),
       SerialPrint (if publish_answer env (n_publish s) then MsgSent else MsgSendFailed),
       CameraFbReturn f, DigitalWrite LED_BUILTIN False]"
    by (simp add: ev delivered_events_def)
  ultimately show ?thesis by blast
qed

lemma outage_capture:
  "captureAndSend outage_env 4 boot_state =
     Returned (delivered outage_env frame0
       (after_query True (after_accepted outage_env (after_failed outage_env
         (after_failed outage_env (after_query False (acquired frame0 boot_state)))))))"
proof -
  have four: "(4::nat) = Suc (Suc (Suc (Suc 0)))" by simp
  have f: "fb_get_answer outage_env (n_fb_get boot_state) = Some frame0"
    by (simp add: outage_env_def scripted_def)
  show ?thesis
    unfolding four captureAndSend_Some [OF f]
    by (simp add: ensure_def reconnect_Suc and_then_def outage_env_def scripted_def boot_state_def)
qed

lemma steady_capture:
  "captureAndSend steady_env 0 boot_state =
     Returned (delivered steady_env frame0 (after_query True (acquired frame0 boot_state)))"
proof -
  have f: "fb_get_answer steady_env (n_fb_get boot_state) = Some frame0"
    by (simp add: steady_env_def scripted_def)
  show ?thesis
    unfolding captureAndSend_Some [OF f]
    by (simp add: ensure_def and_then_def steady_env_def scripted_def boot_state_def)
qed

theorem captureAndSend_releases_once_witness:
  "filter is_release (trace (final (captureAndSend outage_env 4 boot_state))) =
     [CameraFbReturn frame0] \<and>
   filter is_publish (trace (final (captureAndSend outage_env 4 boot_state))) =
     [MqttPublish mqtt_topic (buf frame0) (len frame0) False] \<and>
   filter is_release (trace (final (captureAndSend steady_env 0 boot_state))) =
     [CameraFbReturn frame0] \<and>
   filter is_publish (trace (final (captureAndSend steady_env 0 boot_state))) =
     [MqttPublish mqtt_topic (buf frame0) (len frame0) True]"
proof -
  have f1: "fb_get_answer outage_env (n_fb_get boot_state) = Some frame0"
    by (simp add: outage_env_def scripted_def)
  have f2: "fb_get_answer steady_env (n_fb_get boot_state) = Some frame0"
    by (simp add: steady_env_def scripted_def)
  have t: "new_events boot_state s = trace s" for s
    by (simp add: new_events_def boot_state_def)
  have p1: "filter is_publish (trace (final (captureAndSend outage_env 4 boot_state))) =
      [MqttPublish mqtt_topic (buf frame0) (len frame0) False]"
    by (simp add: outage_capture)
       (simp add: boot_state_def acquired_events_def failed_attempt_def accepted_attempt_def
          delivered_events_def is_publish_def outage_env_def scripted_def)
  have p2: "filter is_publish (trace (final (captureAndSend steady_env 0 boot_state))) =
      [MqttPublish mqtt_topic (buf frame0) (len frame0) True]"
    by (simp add: steady_capture)
       (simp add: boot_state_def acquired_events_def delivered_events_def is_publish_def
          steady_env_def scripted_def)
  from captureAndSend_releases_once [OF f1 outage_capture]
    captureAndSend_releases_once [OF f2 steady_capture] p1 p2
  show ?thesis by (simp add: t outage_capture steady_capture)
qed

lemma chained_D:
  "chained R prev es \<Longrightarrow> es = pre @ e # post \<Longrightarrow>
     R (if pre = [] then prev else Some (last pre)) e"
  by (simp add: chained_append)

lemma chained_no_publish:
  "filter is_publish es = [] \<Longrightarrow> chained publish_after_connected prev es"
  by (induction es arbitrary: prev)
     (auto simp: publish_after_connected_def is_publish_def split: event.splits if_splits)

lemma capture_publish_chained:
  "chained publish_after_connected None (capture_events env n s)"
proof (cases "fb_get_answer env (n_fb_get s)")
  case None
  then show ?thesis
    by (simp add: capture_events_eq capture_failed_events_def publish_after_connected_def)
next
  case (Some f)
  have a: "chained publish_after_connected None (acquired_events f)"
    by (simp add: acquired_events_def publish_after_connected_def)
  have e: "chained publish_after_connected prev (ensure_events env n (acquired f s))" for prev
    by (rule chained_no_publish) (rule ensure_no_publish)
  have d: "returned (ensure env n (acquired f s)) \<Longrightarrow>
      chained publish_after_connected (Some (last (ensure_events env n (acquired f s))))
        (delivered_events env f s)"
    by (simp add: ensure_last delivered_events_def publish_after_connected_def)
  from a e d Some show ?thesis
    by (simp add: capture_events_eq chained_append acquired_events_def)
qed

text \<open>
  C3. In a capture-publish cycle, finished or not, every publish comes right after a
  \<^verbatim>\<open>connected()\<close> query that answered true: nothing happens between that answer and
  the publish. (The query is the test of line 131, or the last test of the retry loop
  that \<^verbatim>\<open>reconnectMQTT\<close> ran.)
\<close>

theorem publish_only_when_connected:
  "chained publish_after_connected None (new_events s (final (captureAndSend env n s))) \<and>
   (\<forall>pre t p l ok post.
      new_events s (final (captureAndSend env n s)) = pre @ MqttPublish t p l ok # post \<longrightarrow>
      pre \<noteq> [] \<and> last pre = MqttConnectedQ True)"
proof (intro conjI allI impI)
  show c: "chained publish_after_connected None (new_events s (final (captureAndSend env n s)))"
    using capture_publish_chained [of env n s] by (simp add: capture_events_def)
  fix pre t p l ok post
  assume "new_events s (final (captureAndSend env n s)) = pre @ MqttPublish t p l ok # post"
  from chained_D [OF c this]
  show "pre \<noteq> []" and "last pre = MqttConnectedQ True"
    by (simp_all add: publish_after_connected_def split: if_splits)
qed

lemma outage_trace:
  "trace (final (captureAndSend outage_env 4 boot_state)) =
     [SerialPrint MsgCapturing, DigitalWrite 33 True, CameraFbGet (Some frame0),
      SerialPrint (MsgCaptured 3),
      MqttConnectedQ False,
      MqttConnectedQ False, SerialPrint MsgConnecting, Random 65535 4660,
      MqttConnect ''ESP32CAM-Electric-1234'' ''meter'' ''secret'' False,
      SerialPrint MsgFailedRc, MqttState (- 2), SerialPrint (MsgRc (- 2)),
      SerialPrint MsgRetrying, Delay 5000,
      MqttConnectedQ False, SerialPrint MsgConnecting, Random 65535 4661,
      MqttConnect ''ESP32CAM-Electric-1235'' ''meter'' ''secret'' False,
      SerialPrint MsgFailedRc, MqttState (- 2), SerialPrint (MsgRc (- 2)),
      SerialPrint MsgRetrying, Delay 5000,
      MqttConnectedQ False, SerialPrint MsgConnecting, Random 65535 4662,
      MqttConnect ''ESP32CAM-Electric-1236'' ''meter'' ''secret'' True,
      SerialPrint MsgConnected,
      MqttConnectedQ True,
      MqttPublish ''home/meter/electric/image'' [0xFF, 0xD8, 0xFF] 3 False,
      SerialPrint MsgSendFailed, CameraFbReturn frame0, DigitalWrite 33 False]"
  by (simp add: outage_capture)
     (simp add: boot_state_def acquired_events_def failed_attempt_def accepted_attempt_def
        delivered_events_def outage_env_def scripted_def frame0_def LED_BUILTIN_def
        mqtt_topic_def client_id_eval)

theorem publish_only_when_connected_witness:
  "trace (final (captureAndSend outage_env 4 boot_state)) ! 29 =
     MqttPublish ''home/meter/electric/image'' [0xFF, 0xD8, 0xFF] 3 False \<and>
   last (take 29 (trace (final (captureAndSend outage_env 4 boot_state)))) = MqttConnectedQ True"
proof -
  let ?tr = "trace (final (captureAndSend outage_env 4 boot_state))"
  have n: "new_events boot_state (final (captureAndSend outage_env 4 boot_state)) = ?tr"
    by (simp add: new_events_def boot_state_def)
  have p: "?tr ! 29 = MqttPublish ''home/meter/electric/image'' [0xFF, 0xD8, 0xFF] 3 False"
    by (simp only: outage_trace) simp
  have "?tr = take 29 ?tr @ ?tr ! 29 # drop (Suc 29) ?tr"
    by (rule id_take_nth_drop) (simp only: outage_trace, simp)
  then have "?tr = take 29 ?tr @
      MqttPublish ''home/meter/electric/image'' [0xFF, 0xD8, 0xFF] 3 False # drop (Suc 29) ?tr"
    by (simp only: p)
  with publish_only_when_connected [of boot_state outage_env 4] p
  show ?thesis unfolding n by blast
qed

section \<open>The scheduler\<close>

text \<open>
  C1. In a call of \<^verbatim>\<open>loop()\<close> from any state, so in every iteration of every run, a
  capture-publish cycle is started exactly when the interval test is reached (the
  connection test before it has returned and the clock is read) and
  \<open>now - lastCapture \<ge> captureInterval\<close> holds for the reading \<open>now\<close>; it is then started
  once. \<^verbatim>\<open>lastCapture\<close> is set before the cycle runs: \<^verbatim>\<open>captureAndSend\<close> is called in a state
  where \<^verbatim>\<open>lastCapture\<close> is \<open>now\<close> already, and \<^verbatim>\<open>lastCapture\<close> is \<open>now\<close> at the end of the
  call of \<^verbatim>\<open>loop()\<close> whether or not the cycle has finished. With no cycle, \<^verbatim>\<open>lastCapture\<close>
  keeps its value.
\<close>

theorem loop_cycle_iff_interval_elapsed:
  "(cycle_start \<in> set (new_events s (final (loop env n s))) \<longleftrightarrow>
      n_millis (final (loop env n s)) = Suc (n_millis s) \<and>
      captureInterval \<le> millis_answer env (n_millis s) - lastCapture s) \<and>
   (cycle_start \<in> set (new_events s (final (loop env n s))) \<longrightarrow>
      count_list (new_events s (final (loop env n s))) cycle_start = 1 \<and>
      lastCapture (stamped env (final (ensure env n s))) = millis_answer env (n_millis s) \<and>
      loop env n s =
        and_then (captureAndSend env n (stamped env (final (ensure env n s))))
          (\<lambda>s5. Returned (delay 100 s5)) \<and>
      lastCapture (final (loop env n s)) = millis_answer env (n_millis s)) \<and>
   (cycle_start \<notin> set (new_events s (final (loop env n s))) \<longrightarrow>
      lastCapture (final (loop env n s)) = lastCapture s)"
proof -
  have e: "new_events s (final (loop env n s)) = loop_events env n s"
    by (simp add: loop_events_def)
  have r: "loop env n s =
      and_then (captureAndSend env n (stamped env (final (ensure env n s))))
        (\<lambda>s5. Returned (delay 100 s5))"
    if "returned (ensure env n s)"
      and "captureInterval \<le> millis_answer env (n_millis s) - lastCapture s"
  proof -
    from that(1) have "ensure env n s = Returned (final (ensure env n s))"
      by (rule returned_final)
    then have "loop env n s =
        and_then (Returned (final (ensure env n s)))
          (\<lambda>s2. and_then
             (if captureInterval \<le> millis_answer env (n_millis s2) - lastCapture s2
              then captureAndSend env n (stamped env s2)
              else Returned (serviced env s2))
             (\<lambda>s5. Returned (delay 100 s5)))"
      by (simp add: loop_stamped)
    with that(2) show ?thesis by (simp add: and_then_def)
  qed
  have A: "cycle_start \<in> set (loop_events env n s) \<longleftrightarrow>
      n_millis (final (loop env n s)) = Suc (n_millis s) \<and>
      captureInterval \<le> millis_answer env (n_millis s) - lastCapture s"
    by (simp add: loop_has_start loop_n_millis)
  have B: "count_list (loop_events env n s) cycle_start = 1 \<and>
      lastCapture (stamped env (final (ensure env n s))) = millis_answer env (n_millis s) \<and>
      loop env n s =
        and_then (captureAndSend env n (stamped env (final (ensure env n s))))
          (\<lambda>s5. Returned (delay 100 s5)) \<and>
      lastCapture (final (loop env n s)) = millis_answer env (n_millis s)"
    if "cycle_start \<in> set (loop_events env n s)"
  proof -
    from that have 1: "returned (ensure env n s)"
      and 2: "captureInterval \<le> millis_answer env (n_millis s) - lastCapture s"
      by (simp_all add: loop_has_start)
    from 1 2 have "count_list (loop_events env n s) cycle_start = 1"
      by (simp add: loop_count_start)
    moreover have "lastCapture (stamped env (final (ensure env n s))) =
        millis_answer env (n_millis s)"
      by simp
    moreover from 1 2 have "lastCapture (final (loop env n s)) = millis_answer env (n_millis s)"
      by (simp add: loop_lastCapture)
    ultimately show ?thesis using r [OF 1 2] by blast
  qed
  have C: "lastCapture (final (loop env n s)) = lastCapture s"
    if "cycle_start \<notin> set (loop_events env n s)"
    using that by (auto simp: loop_has_start loop_lastCapture)
  from A B C show ?thesis unfolding e by blast
qed

theorem loop_cycle_iff_interval_elapsed_witness:
  "\<not> returned (loop stuck_env 2 boot_state) \<and>
   cycle_start \<in> set (trace (final (loop stuck_env 2 boot_state))) \<and>
   count_list (trace (final (loop stuck_env 2 boot_state))) cycle_start = 1 \<and>
   lastCapture (final (loop stuck_env 2 boot_state)) = 300000 \<and>
   cycle_start \<notin> set (trace (final (loop steady_env 0 boot_state))) \<and>
   lastCapture (final (loop steady_env 0 boot_state)) = 0"
proof -
  have t: "new_events boot_state s = trace s" for s
    by (simp add: new_events_def boot_state_def)
  have e1: "returned (ensure stuck_env 2 boot_state)"
    by (simp add: ensure_def stuck_env_def scripted_def boot_state_def)
  have m1: "n_millis (final (loop stuck_env 2 boot_state)) = Suc (n_millis boot_state)"
    by (simp add: loop_n_millis e1)
  have i1: "captureInterval \<le> millis_answer stuck_env (n_millis boot_state) - lastCapture boot_state"
    by (simp add: stuck_env_def scripted_def boot_state_def captureInterval_def)
  have now1: "millis_answer stuck_env (n_millis boot_state) = 300000"
    by (simp add: stuck_env_def scripted_def)
  have two: "(2::nat) = Suc (Suc 0)" by simp
  have b1: "\<not> returned (loop stuck_env 2 boot_state)"
    unfolding two
    by (simp add: loop_returned capture_returned i1 [unfolded two])
       (simp add: ensure_def reconnect_Suc stuck_env_def scripted_def boot_state_def)
  have i2: "\<not> captureInterval \<le> millis_answer steady_env (n_millis boot_state) - lastCapture boot_state"
    by (simp add: steady_env_def scripted_def boot_state_def captureInterval_def)
  have z: "lastCapture boot_state = 0"
    by (simp add: boot_state_def)
  from loop_cycle_iff_interval_elapsed [of boot_state stuck_env 2]
    loop_cycle_iff_interval_elapsed [of boot_state steady_env 0] m1 i1 i2 b1
  show ?thesis unfolding t now1 z by blast
qed

lemma interval_uint:
  "captureInterval \<le> (a::u32) - b \<longleftrightarrow> 300000 \<le> (uint a - uint b) mod 2 ^ 32"
  by (simp add: captureInterval_def word_le_def uint_word_ariths)

lemma interval_advance:
  assumes "d < 2 ^ 32"
  shows "captureInterval \<le> ((past::u32) + word_of_nat d) - past \<longleftrightarrow> 300000 \<le> d"
proof -
  have "unat (word_of_nat d :: u32) = d"
    using assms by (simp add: unat_of_nat take_bit_nat_eq_self)
  then show ?thesis
    by (simp add: captureInterval_def word_le_nat_alt)
qed

text \<open>
  C10. The test of line 156 is made in arithmetic modulo \<open>2 ^ 32\<close>: it holds exactly when
  the difference of the two clock values, reduced modulo \<open>2 ^ 32\<close>, is at least 300000, and
  that is when \<^verbatim>\<open>loop()\<close> starts a cycle. So when the clock has advanced by \<open>d\<close>
  milliseconds since the last capture (\<open>d\<close> below \<open>2 ^ 32\<close>), the test holds exactly
  when \<open>d\<close> is at least 300000, also when the counter has wrapped around in between.
\<close>

theorem interval_test_modular:
  fixes now past :: u32
  shows "(captureInterval \<le> now - past \<longleftrightarrow> 300000 \<le> (uint now - uint past) mod 2 ^ 32) \<and>
   (cycle_start \<in> set (new_events s (final (loop env n s))) \<longleftrightarrow>
      n_millis (final (loop env n s)) = Suc (n_millis s) \<and>
      300000 \<le> (uint (millis_answer env (n_millis s)) - uint (lastCapture s)) mod 2 ^ 32) \<and>
   (\<forall>d<2 ^ 32. captureInterval \<le> (past + word_of_nat d) - past \<longleftrightarrow> 300000 \<le> d)"
proof -
  have "cycle_start \<in> set (new_events s (final (loop env n s))) \<longleftrightarrow>
      n_millis (final (loop env n s)) = Suc (n_millis s) \<and>
      300000 \<le> (uint (millis_answer env (n_millis s)) - uint (lastCapture s)) mod 2 ^ 32"
    using loop_has_start [of env n s]
    by (simp add: loop_events_def loop_n_millis interval_uint)
  then show ?thesis
    using interval_uint [of now past] interval_advance [of _ past] by blast
qed

theorem interval_test_modular_witness:
  "(300000::nat) < 2 ^ 32 \<and>
   (4294900000::u32) + word_of_nat 300000 = 232704 \<and>
   captureInterval \<le> (232704::u32) - 4294900000 \<and>
   \<not> captureInterval \<le> (232703::u32) - 4294900000"
proof -
  have a: "(4294900000::u32) + word_of_nat 300000 = 232704" by simp
  have b: "(4294900000::u32) + word_of_nat 299999 = 232703" by simp
  from interval_test_modular [of 232704 4294900000, THEN conjunct2, THEN conjunct2,
      THEN spec, of 300000]
    interval_test_modular [of 232703 4294900000, THEN conjunct2, THEN conjunct2,
      THEN spec, of 299999]
  show ?thesis unfolding a b by simp
qed

text \<open>
  C8. A call of \<^verbatim>\<open>loop()\<close> that returns has done, in this order: the connection test
  with its retry loop (connectivity events only, the last one a \<^verbatim>\<open>connected()\<close> query that
  answered true), then the keepalive service, then the clock reading of the interval
  test, then the capture-publish cycle, which is there exactly when the test holds, and
  then the idle delay. A call that is blocked has done a prefix of this: it is in the
  connection test, or past the interval test and in the cycle.
\<close>

theorem loop_order:
  "(\<forall>s'. loop env n s = Returned s' \<longrightarrow>
      (\<exists>conn cyc.
         new_events s s' =
           conn @ [MqttLoop, Millis (millis_answer env (n_millis s))] @ cyc @ [Delay 100] \<and>
         conn \<noteq> [] \<and> list_all connectivity_event conn \<and>
         hd conn = MqttConnectedQ (connected_answer env (n_connected s)) \<and>
         last conn = MqttConnectedQ True \<and>
         list_all cycle_event cyc \<and>
         (cyc \<noteq> [] \<longleftrightarrow> captureInterval \<le> millis_answer env (n_millis s) - lastCapture s) \<and>
         (cyc \<noteq> [] \<longrightarrow> hd cyc = cycle_start))) \<and>
   (\<forall>s'. loop env n s = Blocked s' \<longrightarrow>
      list_all connectivity_event (new_events s s') \<or>
      (\<exists>conn cyc.
         new_events s s' = conn @ [MqttLoop, Millis (millis_answer env (n_millis s))] @ cyc \<and>
         conn \<noteq> [] \<and> list_all connectivity_event conn \<and>
         last conn = MqttConnectedQ True \<and>
         list_all cycle_event cyc \<and> cyc \<noteq> [] \<and> hd cyc = cycle_start \<and>
         captureInterval \<le> millis_answer env (n_millis s) - lastCapture s))"
proof (intro conjI allI impI)
  fix s' assume r: "loop env n s = Returned s'"
  then have ret: "returned (loop env n s)" and s': "s' = final (loop env n s)"
    by simp_all
  from ret have e: "returned (ensure env n s)"
    by (simp add: loop_returned)
  let ?cyc = "if captureInterval \<le> millis_answer env (n_millis s) - lastCapture s
    then capture_events env n (stamped env (final (ensure env n s))) else []"
  have "new_events s s' =
      ensure_events env n s @ [MqttLoop, Millis (millis_answer env (n_millis s))] @
      ?cyc @ [Delay 100]"
    using loop_events_eq [of env n s] ret e by (simp add: s' loop_events_def)
  moreover have "list_all cycle_event ?cyc"
    by (simp add: capture_cycle)
  moreover have "?cyc \<noteq> [] \<longleftrightarrow>
      captureInterval \<le> millis_answer env (n_millis s) - lastCapture s"
    by simp
  moreover have "?cyc \<noteq> [] \<longrightarrow> hd ?cyc = cycle_start"
    by (simp add: capture_hd)
  ultimately show "\<exists>conn cyc.
      new_events s s' =
        conn @ [MqttLoop, Millis (millis_answer env (n_millis s))] @ cyc @ [Delay 100] \<and>
      conn \<noteq> [] \<and> list_all connectivity_event conn \<and>
      hd conn = MqttConnectedQ (connected_answer env (n_connected s)) \<and>
      last conn = MqttConnectedQ True \<and>
      list_all cycle_event cyc \<and>
      (cyc \<noteq> [] \<longleftrightarrow> captureInterval \<le> millis_answer env (n_millis s) - lastCapture s) \<and>
      (cyc \<noteq> [] \<longrightarrow> hd cyc = cycle_start)"
    using ensure_nonempty [of env n s] ensure_connectivity [of env n s]
      ensure_hd [of env n s] ensure_last [OF e]
    by blast
next
  fix s' assume b: "loop env n s = Blocked s'"
  then have nret: "\<not> returned (loop env n s)" and s': "s' = final (loop env n s)"
    by simp_all
  show "list_all connectivity_event (new_events s s') \<or>
      (\<exists>conn cyc.
         new_events s s' = conn @ [MqttLoop, Millis (millis_answer env (n_millis s))] @ cyc \<and>
         conn \<noteq> [] \<and> list_all connectivity_event conn \<and>
         last conn = MqttConnectedQ True \<and>
         list_all cycle_event cyc \<and> cyc \<noteq> [] \<and> hd cyc = cycle_start \<and>
         captureInterval \<le> millis_answer env (n_millis s) - lastCapture s)"
  proof (cases "returned (ensure env n s)")
    case False
    then have "new_events s s' = ensure_events env n s"
      using loop_events_eq [of env n s] by (simp add: s' loop_events_def)
    then show ?thesis by (simp add: ensure_connectivity)
  next
    case True
    with nret have f: "captureInterval \<le> millis_answer env (n_millis s) - lastCapture s"
      by (auto simp: loop_returned)
    have "new_events s s' =
        ensure_events env n s @ [MqttLoop, Millis (millis_answer env (n_millis s))] @
        capture_events env n (stamped env (final (ensure env n s)))"
      using loop_events_eq [of env n s] nret True f by (simp add: s' loop_events_def)
    then show ?thesis
      using ensure_nonempty [of env n s] ensure_connectivity [of env n s]
        ensure_last [OF True] f
        capture_cycle [of env n "stamped env (final (ensure env n s))"]
        capture_hd [of env n "stamped env (final (ensure env n s))"]
        capture_nonempty [of env n "stamped env (final (ensure env n s))"]
      by blast
  qed
qed

lemma due_loop_trace:
  "returned (loop due_env 0 boot_state) \<and>
   trace (final (loop due_env 0 boot_state)) =
     [MqttConnectedQ True, MqttLoop, Millis 300000,
      SerialPrint MsgCapturing, DigitalWrite 33 True, CameraFbGet (Some frame0),
      SerialPrint (MsgCaptured 3), MqttConnectedQ True,
      MqttPublish ''home/meter/electric/image'' [0xFF, 0xD8, 0xFF] 3 True,
      SerialPrint MsgSent, CameraFbReturn frame0, DigitalWrite 33 False,
      Delay 100]"
proof -
  have c: "connected_answer due_env k" for k
    by (simp add: due_env_def scripted_def)
  have f: "fb_get_answer due_env k = Some frame0" for k
    by (simp add: due_env_def scripted_def)
  have p: "publish_answer due_env k" for k
    by (simp add: due_env_def scripted_def)
  have m: "millis_answer due_env k = 300000" for k
    by (simp add: due_env_def scripted_def)
  have i: "captureInterval \<le> millis_answer due_env (n_millis boot_state) - lastCapture boot_state"
    by (simp add: m boot_state_def captureInterval_def)
  have r: "returned (loop due_env 0 boot_state)"
    by (simp add: loop_returned capture_returned f ensure_connected_returns c)
  have "trace (final (loop due_env 0 boot_state)) = loop_events due_env 0 boot_state"
    by (simp add: loop_trace boot_state_def)
  also have "\<dots> =
     [MqttConnectedQ True, MqttLoop, Millis 300000,
      SerialPrint MsgCapturing, DigitalWrite 33 True, CameraFbGet (Some frame0),
      SerialPrint (MsgCaptured 3), MqttConnectedQ True,
      MqttPublish ''home/meter/electric/image'' [0xFF, 0xD8, 0xFF] 3 True,
      SerialPrint MsgSent, CameraFbReturn frame0, DigitalWrite 33 False,
      Delay 100]"
    using r i
    by (simp add: loop_events_eq capture_events_eq ensure_events_eq ensure_connected_returns
          c f p m acquired_events_def delivered_events_def LED_BUILTIN_def mqtt_topic_def
          frame0_def)
  finally show ?thesis using r by simp
qed

theorem loop_order_witness:
  "returned (loop due_env 0 boot_state) \<and>
   (\<exists>conn cyc.
      trace (final (loop due_env 0 boot_state)) =
        conn @ [MqttLoop, Millis 300000] @ cyc @ [Delay 100] \<and>
      conn = [MqttConnectedQ True] \<and> hd cyc = cycle_start \<and> length cyc = 9)"
proof -
  have r: "loop due_env 0 boot_state = Returned (final (loop due_env 0 boot_state))"
    using due_loop_trace by (intro returned_final) simp
  have t: "new_events boot_state s = trace s" for s
    by (simp add: new_events_def boot_state_def)
  have m: "millis_answer due_env (n_millis boot_state) = 300000"
    by (simp add: due_env_def scripted_def)
  from loop_order [of due_env 0 boot_state, THEN conjunct1, THEN spec, THEN mp, OF r]
  obtain conn cyc where
    d: "trace (final (loop due_env 0 boot_state)) =
        conn @ [MqttLoop, Millis 300000] @ cyc @ [Delay 100]"
    and c: "conn \<noteq> []" "list_all connectivity_event conn"
    and h: "cyc \<noteq> [] \<longrightarrow> hd cyc = cycle_start"
    unfolding t m by blast
  from d c have "conn = [MqttConnectedQ True] \<and> length cyc = 9"
    unfolding due_loop_trace [THEN conjunct2]
    by (cases conn; cases "tl conn")
       (auto simp: connectivity_event_def Cons_eq_append_conv)
  with d h due_loop_trace show ?thesis by auto
qed

text \<open>
  C6, as the code has it. \<^verbatim>\<open>lastCapture\<close> does not decrease as long as the millisecond
  counter has not wrapped around: in a run of calls of \<^verbatim>\<open>loop()\<close> whose clock readings do
  not decrease, as unsigned 32-bit numbers, and start at or above \<^verbatim>\<open>lastCapture\<close>, every
  call leaves \<^verbatim>\<open>lastCapture\<close> at or above its value before the call.
\<close>

theorem lastCapture_increases_without_wrap:
  assumes "\<forall>i j. n_millis s \<le> i \<and> i \<le> j \<longrightarrow> millis_answer env i \<le> millis_answer env j"
    and "lastCapture s \<le> millis_answer env (n_millis s)"
    and "i \<le> j"
  shows "lastCapture (final (loops env n i s)) \<le> lastCapture (final (loops env n j s))"
  using assms(3)
proof (induction j)
  case 0
  then show ?case by simp
next
  case (Suc j)
  show ?case
  proof (cases "i = Suc j")
    case True
    then show ?thesis by simp
  next
    case False
    with Suc.prems have "i \<le> j" by simp
    from Suc.IH [OF this] loops_step_order [OF assms(1,2), of n j]
    show ?thesis by (rule order_trans)
  qed
qed

lemma schedule_clock:
  "\<forall>i j. n_millis boot_state \<le> i \<and> i \<le> j \<longrightarrow>
     millis_answer schedule_env i \<le> millis_answer schedule_env j"
  by (auto simp: schedule_env_def scripted_def)

lemma schedule_answers:
  "connected_answer schedule_env k" "fb_get_answer schedule_env k = Some frame0"
  "millis_answer schedule_env 0 = 0" "millis_answer schedule_env (Suc 0) = 299999"
  "millis_answer schedule_env (Suc (Suc 0)) = 300000"
  by (simp_all add: schedule_env_def scripted_def)

lemma schedule_returned: "returned (loops schedule_env n k boot_state)"
  by (induction k)
     (simp_all add: loops_returned_Suc loop_returned capture_returned schedule_answers
        ensure_connected_returns)

lemma schedule_lastCapture:
  "lastCapture (final (loops schedule_env n 2 boot_state)) = 0 \<and>
   lastCapture (final (loops schedule_env n 3 boot_state)) = 300000"
proof -
  have r: "returned (loops schedule_env n k boot_state)" for k
    by (rule schedule_returned)
  have m: "n_millis (final (loops schedule_env n k boot_state)) = k" for k
    using loops_n_millis [OF r, of k] by (simp add: boot_state_def)
  have e: "returned (ensure schedule_env n s)" for s
    by (simp add: ensure_connected_returns schedule_answers)
  have 0: "lastCapture (final (loops schedule_env n 0 boot_state)) = 0"
    by (simp add: boot_state_def)
  have 1: "lastCapture (final (loops schedule_env n (Suc 0) boot_state)) = 0"
    unfolding loops_final_Suc
    by (simp only: r if_True loop_lastCapture e m 0 schedule_answers)
       (simp add: captureInterval_def)
  have 2: "lastCapture (final (loops schedule_env n (Suc (Suc 0)) boot_state)) = 0"
    unfolding loops_final_Suc [of _ _ "Suc 0"]
    by (simp only: r if_True loop_lastCapture e m 1 schedule_answers)
       (simp add: captureInterval_def)
  have 3: "lastCapture (final (loops schedule_env n (Suc (Suc (Suc 0))) boot_state)) = 300000"
    unfolding loops_final_Suc [of _ _ "Suc (Suc 0)"]
    by (simp only: r if_True loop_lastCapture e m 2 schedule_answers)
       (simp add: captureInterval_def)
  show ?thesis
    unfolding numeral_2_eq_2 numeral_3_eq_3 using 2 3 by blast
qed

theorem lastCapture_increases_without_wrap_witness:
  "lastCapture boot_state \<le> millis_answer schedule_env (n_millis boot_state) \<and>
   (2::nat) \<le> 3 \<and>
   lastCapture (final (loops schedule_env 0 2 boot_state)) = 0 \<and>
   lastCapture (final (loops schedule_env 0 3 boot_state)) = 300000 \<and>
   lastCapture (final (loops schedule_env 0 2 boot_state)) \<le>
     lastCapture (final (loops schedule_env 0 3 boot_state))"
proof -
  have s: "lastCapture boot_state \<le> millis_answer schedule_env (n_millis boot_state)"
    by (simp add: boot_state_def)
  have l: "(2::nat) \<le> 3" by simp
  from lastCapture_increases_without_wrap [OF schedule_clock s l, of 0] s l
    schedule_lastCapture [of 0]
  show ?thesis by simp
qed

lemma wrap_answers:
  "connected_answer wrap_env k" "fb_get_answer wrap_env k = None"
  "millis_answer wrap_env 0 = 4294900000" "millis_answer wrap_env (Suc 0) = 232704"
  by (simp_all add: wrap_env_def scripted_def)

lemma wrap_returned: "returned (loops wrap_env n k boot_state)"
  by (induction k)
     (simp_all add: loops_returned_Suc loop_returned capture_returned wrap_answers
        ensure_connected_returns)

text \<open>
  C6 as stated fails across the wraparound of the counter: the second call of
  \<^verbatim>\<open>loop()\<close> stores a smaller value than the first one did.
\<close>

theorem lastCapture_decreases_on_wrap:
  "lastCapture (final (loops wrap_env 0 1 boot_state)) = 4294900000 \<and>
   lastCapture (final (loops wrap_env 0 2 boot_state)) = 232704 \<and>
   \<not> lastCapture (final (loops wrap_env 0 1 boot_state)) \<le>
       lastCapture (final (loops wrap_env 0 2 boot_state))"
proof -
  have r: "returned (loops wrap_env 0 k boot_state)" for k
    by (rule wrap_returned)
  have m: "n_millis (final (loops wrap_env 0 k boot_state)) = k" for k
    using loops_n_millis [OF r, of k] by (simp add: boot_state_def)
  have e: "returned (ensure wrap_env 0 s)" for s
    by (simp add: ensure_connected_returns wrap_answers)
  have 0: "lastCapture (final (loops wrap_env 0 0 boot_state)) = 0"
    by (simp add: boot_state_def)
  have 1: "lastCapture (final (loops wrap_env 0 (Suc 0) boot_state)) = 4294900000"
    unfolding loops_final_Suc
    by (simp only: r if_True loop_lastCapture e m 0 wrap_answers)
       (simp add: captureInterval_def)
  have 2: "lastCapture (final (loops wrap_env 0 (Suc (Suc 0)) boot_state)) = 232704"
    unfolding loops_final_Suc [of _ _ "Suc 0"]
    by (simp only: r if_True loop_lastCapture e m 1 wrap_answers)
       (simp add: captureInterval_def)
  have "\<not> (4294900000::u32) \<le> 232704" by simp
  then show ?thesis
    unfolding numeral_2_eq_2 One_nat_def 1 2 by simp
qed

text \<open>
  C5, as the code has it. With \<^verbatim>\<open>captureInterval\<close> 300000 and \<^verbatim>\<open>lastCapture\<close> 0 at the
  start, three calls of \<^verbatim>\<open>loop()\<close> that read the clock at 0, 299999 and 300000 do this:
  the tick at 0 starts no cycle (0 - 0 is below the interval) and leaves \<^verbatim>\<open>lastCapture\<close>
  at 0, the tick at 299999 starts no cycle, and the tick at 300000 starts the one cycle
  and sets \<^verbatim>\<open>lastCapture\<close> to 300000.
\<close>

theorem schedule_scenario:
  assumes "millis_answer env 0 = 0" and "millis_answer env 1 = 299999"
    and "millis_answer env 2 = 300000"
    and "returned (loops env n 3 boot_state)"
  shows "count_list (trace (final (loops env n 1 boot_state))) cycle_start = 0 \<and>
    lastCapture (final (loops env n 1 boot_state)) = 0 \<and>
    count_list (trace (final (loops env n 2 boot_state))) cycle_start = 0 \<and>
    lastCapture (final (loops env n 2 boot_state)) = 0 \<and>
    count_list (trace (final (loops env n 3 boot_state))) cycle_start = 1 \<and>
    lastCapture (final (loops env n 3 boot_state)) = 300000"
proof -
  let ?s = "\<lambda>k. final (loops env n k boot_state)"
  from assms(4) have r3: "returned (loops env n (Suc (Suc (Suc 0))) boot_state)"
    by (simp add: numeral_3_eq_3)
  then have r2: "returned (loops env n (Suc (Suc 0)) boot_state)"
    and l2: "returned (loop env n (?s (Suc (Suc 0))))"
    by (simp_all add: loops_returned_Suc [of _ _ "Suc (Suc 0)"])
  then have r1: "returned (loops env n (Suc 0) boot_state)"
    and l1: "returned (loop env n (?s (Suc 0)))"
    by (simp_all add: loops_returned_Suc [of _ _ "Suc 0"])
  then have r0: "returned (loops env n 0 boot_state)"
    and l0: "returned (loop env n (?s 0))"
    by (simp_all add: loops_returned_Suc [of _ _ 0])
  note e = loop_returned_ensure [OF l0] loop_returned_ensure [OF l1]
    loop_returned_ensure [OF l2]
  have m: "n_millis (?s 0) = 0" "n_millis (?s (Suc 0)) = Suc 0"
    "n_millis (?s (Suc (Suc 0))) = Suc (Suc 0)"
    using loops_n_millis [OF r0] loops_n_millis [OF r1] loops_n_millis [OF r2]
    by (simp_all add: boot_state_def)
  have a: "millis_answer env 0 = 0" "millis_answer env (Suc 0) = 299999"
    "millis_answer env (Suc (Suc 0)) = 300000"
    using assms(1-3) by (simp_all add: numeral_2_eq_2)
  have c0: "lastCapture (?s 0) = 0" "count_list (trace (?s 0)) cycle_start = 0"
    by (simp_all add: boot_state_def)
  have c1: "lastCapture (?s (Suc 0)) = 0"
    unfolding loops_final_Suc [of _ _ 0]
    by (simp only: r0 if_True loop_lastCapture e m a c0) (simp add: captureInterval_def)
  have d1: "count_list (trace (?s (Suc 0))) cycle_start = 0"
    unfolding loops_trace_Suc [of _ _ 0]
    by (simp only: r0 if_True loop_count_start count_list_append e m a c0)
       (simp add: captureInterval_def)
  have c2: "lastCapture (?s (Suc (Suc 0))) = 0"
    unfolding loops_final_Suc [of _ _ "Suc 0"]
    by (simp only: r1 if_True loop_lastCapture e m a c1) (simp add: captureInterval_def)
  have d2: "count_list (trace (?s (Suc (Suc 0)))) cycle_start = 0"
    unfolding loops_trace_Suc [of _ _ "Suc 0"]
    by (simp only: r1 if_True loop_count_start count_list_append e m a c1 d1)
       (simp add: captureInterval_def)
  have c3: "lastCapture (?s (Suc (Suc (Suc 0)))) = 300000"
    unfolding loops_final_Suc [of _ _ "Suc (Suc 0)"]
    by (simp only: r2 if_True loop_lastCapture e m a c2) (simp add: captureInterval_def)
  have d3: "count_list (trace (?s (Suc (Suc (Suc 0))))) cycle_start = 1"
    unfolding loops_trace_Suc [of _ _ "Suc (Suc 0)"]
    by (simp only: r2 if_True loop_count_start count_list_append e m a c2 d2)
       (simp add: captureInterval_def)
  show ?thesis
    unfolding numeral_2_eq_2 numeral_3_eq_3 One_nat_def using c1 c2 c3 d1 d2 d3 by simp
qed

theorem schedule_scenario_witness:
  "returned (loops schedule_env 0 3 boot_state) \<and>
   count_list (trace (final (loops schedule_env 0 1 boot_state))) cycle_start = 0 \<and>
   lastCapture (final (loops schedule_env 0 1 boot_state)) = 0 \<and>
   count_list (trace (final (loops schedule_env 0 2 boot_state))) cycle_start = 0 \<and>
   lastCapture (final (loops schedule_env 0 2 boot_state)) = 0 \<and>
   count_list (trace (final (loops schedule_env 0 3 boot_state))) cycle_start = 1 \<and>
   lastCapture (final (loops schedule_env 0 3 boot_state)) = 300000"
proof -
  have a: "millis_answer schedule_env 0 = 0" "millis_answer schedule_env 1 = 299999"
    "millis_answer schedule_env 2 = 300000"
    by (simp_all add: schedule_env_def scripted_def)
  have r: "returned (loops schedule_env 0 3 boot_state)"
    by (rule schedule_returned)
  from schedule_scenario [OF a r] r show ?thesis by blast
qed

text \<open>
  C5 as stated fails in its first step: the tick at 0 with no capture before it starts
  no cycle; the call of \<^verbatim>\<open>loop()\<close> tests the connection, services the keepalive, reads
  the clock and idles.
\<close>

theorem first_tick_starts_no_cycle:
  "lastCapture boot_state = 0 \<and>
   trace (final (loop schedule_env 0 boot_state)) =
     [MqttConnectedQ True, MqttLoop, Millis 0, Delay 100] \<and>
   cycle_start \<notin> set (trace (final (loop schedule_env 0 boot_state)))"
proof -
  have i: "\<not> captureInterval \<le> millis_answer schedule_env (n_millis boot_state) - lastCapture boot_state"
    by (simp add: schedule_answers boot_state_def captureInterval_def)
  have e: "returned (ensure schedule_env 0 boot_state)"
    by (simp add: ensure_connected_returns schedule_answers)
  have r: "returned (loop schedule_env 0 boot_state)"
    using i e by (simp add: loop_returned)
  have "trace (final (loop schedule_env 0 boot_state)) = loop_events schedule_env 0 boot_state"
    by (simp add: loop_trace boot_state_def)
  also have "\<dots> = [MqttConnectedQ True, MqttLoop, Millis 0, Delay 100]"
    using i e r
    by (simp add: loop_events_eq ensure_events_eq schedule_answers)
       (simp add: boot_state_def schedule_answers)
  finally show ?thesis
    by (simp add: boot_state_def cycle_start_def)
qed

end
